theory Spec2Isabelle
  imports Complex_Main "HOL-Library.AList"
begin

section \<open>JavaScript values and runtime helpers\<close>

text \<open>
  Filters, query parameters, rows and decoded documents are only read by the code, so they
  are modelled as trees. An object is the list of its own enumerable properties in the
  order \<^verbatim>\<open>for ... in\<close> visits them; a JavaScript object has each key once. Numbers are
  modelled as integers (the exact range of a double); prototype properties are not
  modelled.
\<close>

datatype jv =
    JUndefined
  | JNull
  | JBool bool
  | JNum int
  | JStr string
  | JArr "jv list"
  | JObj "(string \<times> jv) list"

text \<open>
  The failures the code can raise or pass on: the TypeError and SyntaxError of the runtime,
  and any other failure (a rejected driver call, an exception of caller-supplied code),
  named by its message.
\<close>

datatype error =
    TypeError
  | SyntaxError
  | Failure string

text \<open>\<^verbatim>\<open>Array.prototype.join\<close> on strings.\<close>

fun join :: "string \<Rightarrow> string list \<Rightarrow> string" where
  "join sep [] = []"
| "join sep [x] = x"
| "join sep (x # y # ys) = x @ sep @ join sep (y # ys)"

text \<open>Decimal rendering of an integer, as a template literal prints it.\<close>

definition digitChar :: "nat \<Rightarrow> char" where
  "digitChar n = ''0123456789'' ! n"

function showNat :: "nat \<Rightarrow> string" where
  "showNat n = (if n < 10 then [digitChar n] else showNat (n div 10) @ [digitChar (n mod 10)])"
  by pat_completeness auto
termination
  by (relation "measure id") auto

declare showNat.simps [simp del]

definition showInt :: "int \<Rightarrow> string" where
  "showInt i = (if i < 0 then ''-'' @ showNat (nat (- i)) else showNat (nat i))"

definition isArray :: "jv \<Rightarrow> bool" where
  "isArray v = (case v of JArr xs \<Rightarrow> True | _ \<Rightarrow> False)"

definition elems :: "jv \<Rightarrow> jv list" where
  "elems v = (case v of JArr xs \<Rightarrow> xs | _ \<Rightarrow> [])"

text \<open>\<^verbatim>\<open>typeof v === 'object'\<close>: objects, arrays and \<^verbatim>\<open>null\<close>.\<close>

definition typeofObject :: "jv \<Rightarrow> bool" where
  "typeofObject v = (case v of JObj kvs \<Rightarrow> True | JArr xs \<Rightarrow> True | JNull \<Rightarrow> True | _ \<Rightarrow> False)"

definition indexed :: "jv list \<Rightarrow> (string \<times> jv) list" where
  "indexed xs = zip (map showNat [0..<length xs]) xs"

text \<open>
  The own enumerable properties of a value, in \<^verbatim>\<open>for ... in\<close> order: those of an
  object; the indices of an array or of a string; none for the other primitives.
\<close>

definition ownEntries :: "jv \<Rightarrow> (string \<times> jv) list" where
  "ownEntries v =
     (case v of
        JObj kvs \<Rightarrow> kvs
      | JArr xs \<Rightarrow> indexed xs
      | JStr s \<Rightarrow> indexed (map (\<lambda>c. JStr [c]) s)
      | _ \<Rightarrow> [])"

section \<open>Predicate Compiler (utils/helpers.ts)\<close>

definition parseKey :: "string \<Rightarrow> string \<Rightarrow> string" where
  "parseKey dialect key =
     (if dialect = ''postgres'' then ''data->>'' @ [CHR 0x27] @ key @ [CHR 0x27]
      else ''JSON_UNQUOTE(JSON_EXTRACT(data, '' @ [CHR 0x27] @ ''$.'' @ key @ [CHR 0x27] @ ''))'')"

text \<open>The six comparison cases of the \<^verbatim>\<open>switch\<close>, which differ in the SQL operator only.\<close>

definition comparison :: "string \<Rightarrow> string option" where
  "comparison op =
     (if op = ''$eq'' then Some '' = ?''
      else if op = ''$ne'' then Some '' <> ?''
      else if op = ''$gt'' then Some '' > ?''
      else if op = ''$gte'' then Some '' >= ?''
      else if op = ''$lt'' then Some '' < ?''
      else if op = ''$lte'' then Some '' <= ?''
      else None)"

definition placeholders :: "jv list \<Rightarrow> string" where
  "placeholders xs = join '', '' (map (\<lambda>_. ''?'') xs)"

text \<open>
  \<^verbatim>\<open>parseCondition(key, value)\<close> pushes onto the \<^verbatim>\<open>params\<close> array of the enclosing
  \<^verbatim>\<open>buildWhereClause\<close> call: the array is passed in and returned. \<open>parseOps\<close> is the
  \<^verbatim>\<open>for (const op in value)\<close> loop, with \<^verbatim>\<open>subClauses\<close> as accumulator. Calling
  \<^verbatim>\<open>.map\<close> on an operand that is not an array raises a TypeError.
\<close>

fun parseCondition :: "string \<Rightarrow> string \<Rightarrow> jv \<Rightarrow> jv list \<Rightarrow> error + (string \<times> jv list)"
  and parseOps :: "string \<Rightarrow> string \<Rightarrow> (string \<times> jv) list \<Rightarrow> string list \<Rightarrow> jv list
                     \<Rightarrow> error + (string list \<times> jv list)"
where
  "parseCondition d key (JObj ops) params =
     (case parseOps d key ops [] params of
        Inl e \<Rightarrow> Inl e
      | Inr (subClauses, ps) \<Rightarrow> Inr (join '' AND '' subClauses, ps))"
| "parseCondition d key v params = Inr (parseKey d key @ '' = ?'', params @ [v])"
| "parseOps d key [] subClauses params = Inr (subClauses, params)"
| "parseOps d key ((op, operand) # rest) subClauses params =
     (case comparison op of
        Some c \<Rightarrow> parseOps d key rest (subClauses @ [parseKey d key @ c]) (params @ [operand])
      | None \<Rightarrow>
          if op = ''$in'' then
            (case operand of
               JArr xs \<Rightarrow>
                 parseOps d key rest
                   (subClauses @ [parseKey d key @ '' IN ('' @ placeholders xs @ '')''])
                   (params @ xs)
             | _ \<Rightarrow> Inl TypeError)
          else if op = ''$nin'' then
            (case operand of
               JArr xs \<Rightarrow>
                 parseOps d key rest
                   (subClauses @ [parseKey d key @ '' NOT IN ('' @ placeholders xs @ '')''])
                   (params @ xs)
             | _ \<Rightarrow> Inl TypeError)
          else if op = ''$not'' then
            (case parseCondition d key operand params of
               Inl e \<Rightarrow> Inl e
             | Inr (notCond, ps) \<Rightarrow>
                 parseOps d key rest (subClauses @ [''NOT ('' @ notCond @ '')'']) ps)
          else parseOps d key rest subClauses params)"

text \<open>
  The loop body for a key that is not a combinator:
  \<^verbatim>\<open>const cond = parseCondition(key, filter[key]); if (cond) clauses.push(cond);\<close>
\<close>

definition fieldEntry :: "string \<Rightarrow> string \<Rightarrow> jv \<Rightarrow> string list \<Rightarrow> jv list
                            \<Rightarrow> error + (string list \<times> jv list)" where
  "fieldEntry d key v clauses params =
     (case parseCondition d key v params of
        Inl e \<Rightarrow> Inl e
      | Inr (cond, ps) \<Rightarrow> Inr (if cond \<noteq> [] then clauses @ [cond] else clauses, ps))"

text \<open>The loop over the entries of a filter that is an array or a string: its keys are
  indices, never a combinator, so every entry takes the last branch.\<close>

fun scanFields :: "string \<Rightarrow> (string \<times> jv) list \<Rightarrow> string list \<Rightarrow> jv list
                      \<Rightarrow> error + (string list \<times> jv list)" where
  "scanFields d [] clauses params = Inr (clauses, params)"
| "scanFields d ((key, v) # rest) clauses params =
     (case fieldEntry d key v clauses params of
        Inl e \<Rightarrow> Inl e
      | Inr (cs, ps) \<Rightarrow> scanFields d rest cs ps)"

definition finish :: "error + (string list \<times> jv list) \<Rightarrow> error + (string \<times> jv list)" where
  "finish r = (case r of Inl e \<Rightarrow> Inl e | Inr (clauses, params) \<Rightarrow> Inr (join '' AND '' clauses, params))"

lemma size_elems [termination_simp]: "size_list size (elems v) \<le> size v"
  by (cases v) (simp_all add: elems_def)

text \<open>
  \<^verbatim>\<open>buildWhereClause(filter, dialect)\<close>. \<open>scanFilter\<close> is the \<^verbatim>\<open>for (const key in filter)\<close>
  loop with \<^verbatim>\<open>clauses\<close> and \<^verbatim>\<open>params\<close> as accumulators; \<open>mapClauses\<close> is the \<^verbatim>\<open>.map\<close>
  over the elements of \<^verbatim>\<open>$or\<close> and \<^verbatim>\<open>$and\<close>. A recursive call returns its own clause and
  its own parameter array; the source destructures \<^verbatim>\<open>{ clause }\<close> only.
\<close>

fun buildWhereClause :: "string \<Rightarrow> jv \<Rightarrow> error + (string \<times> jv list)"
  and scanFilter :: "string \<Rightarrow> (string \<times> jv) list \<Rightarrow> string list \<Rightarrow> jv list
                       \<Rightarrow> error + (string list \<times> jv list)"
  and mapClauses :: "string \<Rightarrow> jv list \<Rightarrow> error + string list"
where
  "buildWhereClause d (JObj kvs) = finish (scanFilter d kvs [] [])"
| "buildWhereClause d v = finish (scanFields d (ownEntries v) [] [])"
| "scanFilter d [] clauses params = Inr (clauses, params)"
| "scanFilter d ((key, v) # rest) clauses params =
     (if key = ''$or'' \<and> isArray v then
        (case mapClauses d (elems v) of
           Inl e \<Rightarrow> Inl e
         | Inr orClauses \<Rightarrow>
             scanFilter d rest (clauses @ [''('' @ join '' OR '' orClauses @ '')'']) params)
      else if key = ''$and'' \<and> isArray v then
        (case mapClauses d (elems v) of
           Inl e \<Rightarrow> Inl e
         | Inr andClauses \<Rightarrow>
             scanFilter d rest (clauses @ [''('' @ join '' AND '' andClauses @ '')'']) params)
      else if key = ''$not'' \<and> typeofObject v then
        (case buildWhereClause d v of
           Inl e \<Rightarrow> Inl e
         | Inr (clause, _) \<Rightarrow> scanFilter d rest (clauses @ [''NOT ('' @ clause @ '')'']) params)
      else
        (case fieldEntry d key v clauses params of
           Inl e \<Rightarrow> Inl e
         | Inr (cs, ps) \<Rightarrow> scanFilter d rest cs ps))"
| "mapClauses d [] = Inr []"
| "mapClauses d (cond # conds) =
     (case buildWhereClause d cond of
        Inl e \<Rightarrow> Inl e
      | Inr (clause, _) \<Rightarrow>
          (case mapClauses d conds of
             Inl e \<Rightarrow> Inl e
           | Inr cs \<Rightarrow> Inr ((''('' @ clause @ '')'') # cs)))"

text \<open>The operators the \<^verbatim>\<open>switch\<close> of \<^verbatim>\<open>parseCondition\<close> has a case for.\<close>

definition knownOperator :: "string \<Rightarrow> bool" where
  "knownOperator op = (comparison op \<noteq> None \<or> op = ''$in'' \<or> op = ''$nin'' \<or> op = ''$not'')"

text \<open>Every \<^verbatim>\<open>$in\<close> and \<^verbatim>\<open>$nin\<close> key that occurs anywhere in a value is bound to an array.\<close>

fun arrayOperands :: "jv \<Rightarrow> bool" where
  "arrayOperands (JObj kvs) =
     (\<forall>p \<in> set kvs. ((fst p = ''$in'' \<or> fst p = ''$nin'') \<longrightarrow> isArray (snd p)) \<and> arrayOperands (snd p))"
| "arrayOperands (JArr xs) = (\<forall>x \<in> set xs. arrayOperands x)"
| "arrayOperands v = True"

section \<open>Objects and arrays that are mutated in place\<close>

text \<open>
  \<^verbatim>\<open>applyUpdateOperators\<close> assigns properties and pushes onto arrays, and arrays are
  shared by reference between the input document, the update specification and the
  result. Its values therefore live in a heap: a value is a primitive or the address of a
  cell, and a cell is an array or an object. Allocation appends a cell.

  A JavaScript number is an IEEE double. The function adds numbers, so the type of numbers
  is left open here (the type variable \<open>'n\<close>) and the arithmetic of the runtime is a
  parameter (the record \<open>engine\<close> below): nothing is assumed of the addition, which rounds.
\<close>

type_synonym addr = nat

datatype 'n val =
    VUndefined
  | VNull
  | VBool bool
  | VNum 'n
  | VStr string
  | VRef addr

datatype 'n cell =
    Arr "'n val list"
  | Obj "(string \<times> 'n val) list"

type_synonym 'n heap = "'n cell list"

text \<open>
  What \<^verbatim>\<open>applyUpdateOperators\<close> uses of the JavaScript runtime without defining it:

    \<^item> \<open>numAdd\<close>, the operator \<^verbatim>\<open>+\<close> on two numbers; \<open>numZero\<close>, the literal \<^verbatim>\<open>0\<close>; \<open>numOne\<close>,
      the number \<^verbatim>\<open>true\<close> counts as; \<open>numFalsy\<close>, the numbers \<^verbatim>\<open>||\<close> takes as false (the two
      zeros and NaN); \<open>numEq\<close>, the operator \<^verbatim>\<open>===\<close> on two numbers; \<open>numText\<close>, the text of a
      number;
    \<^item> \<open>objectText\<close>, the conversion of an array or an object to a string;
    \<^item> \<open>inherited\<close>, the properties every object has from \<^verbatim>\<open>Object.prototype\<close>
      (\<^verbatim>\<open>toString\<close>, \<^verbatim>\<open>constructor\<close>, \<^verbatim>\<open>hasOwnProperty\<close> and so on), which \<^verbatim>\<open>obj[k]\<close> reads
      when \<open>obj\<close> has no own property \<open>k\<close>. They are not enumerable: neither a spread nor
      \<^verbatim>\<open>for ... in\<close> visits them.
\<close>

record 'n engine =
  numAdd :: "'n \<Rightarrow> 'n \<Rightarrow> 'n"
  numZero :: 'n
  numOne :: 'n
  numFalsy :: "'n \<Rightarrow> bool"
  numEq :: "'n \<Rightarrow> 'n \<Rightarrow> bool"
  numText :: "'n \<Rightarrow> string"
  objectText :: "'n cell list \<Rightarrow> addr \<Rightarrow> string"
  inherited :: "string \<Rightarrow> 'n val option"

definition cellAt :: "'n heap \<Rightarrow> addr \<Rightarrow> 'n cell option" where
  "cellAt h a = (if a < length h then Some (h ! a) else None)"

definition alloc :: "'n cell \<Rightarrow> 'n heap \<Rightarrow> addr \<times> 'n heap" where
  "alloc c h = (length h, h @ [c])"

text \<open>\<^verbatim>\<open>Array.isArray(v)\<close> and the elements of an array value.\<close>

definition isArrayV :: "'n heap \<Rightarrow> 'n val \<Rightarrow> bool" where
  "isArrayV h v =
     (case v of
        VRef a \<Rightarrow> (case cellAt h a of Some (Arr xs) \<Rightarrow> True | _ \<Rightarrow> False)
      | _ \<Rightarrow> False)"

definition arrayElems :: "'n heap \<Rightarrow> 'n val \<Rightarrow> 'n val list" where
  "arrayElems h v =
     (case v of
        VRef a \<Rightarrow> (case cellAt h a of Some (Arr xs) \<Rightarrow> xs | _ \<Rightarrow> [])
      | _ \<Rightarrow> [])"

text \<open>
  The own enumerable properties a spread \<^verbatim>\<open>{ ...v }\<close> copies, in order: those of an
  object, the indices of an array or of a string, none for the other primitives.
\<close>

definition ownProps :: "'n heap \<Rightarrow> 'n val \<Rightarrow> (string \<times> 'n val) list" where
  "ownProps h v =
     (case v of
        VRef a \<Rightarrow>
          (case cellAt h a of
             Some (Obj ps) \<Rightarrow> ps
           | Some (Arr xs) \<Rightarrow> zip (map showNat [0..<length xs]) xs
           | None \<Rightarrow> [])
      | VStr s \<Rightarrow> zip (map showNat [0..<length s]) (map (\<lambda>c. VStr [c]) s)
      | _ \<Rightarrow> [])"

text \<open>
  Reading the property \<open>k\<close> of an object with the own properties \<open>ps\<close>: the own property
  when there is one, otherwise the inherited one, otherwise \<^verbatim>\<open>undefined\<close>.
\<close>

definition inheritedProp :: "'n engine \<Rightarrow> string \<Rightarrow> 'n val" where
  "inheritedProp eng k = (case inherited eng k of None \<Rightarrow> VUndefined | Some v \<Rightarrow> v)"

definition getProp :: "'n engine \<Rightarrow> (string \<times> 'n val) list \<Rightarrow> string \<Rightarrow> 'n val" where
  "getProp eng ps k = (case map_of ps k of None \<Rightarrow> inheritedProp eng k | Some v \<Rightarrow> v)"

text \<open>Assigning the properties of \<open>src\<close>, in order, to a property list: an existing key
  keeps its place, a new key goes last.\<close>

definition assignAll ::
  "(string \<times> 'n val) list \<Rightarrow> (string \<times> 'n val) list \<Rightarrow> (string \<times> 'n val) list" where
  "assignAll target src = foldl (\<lambda>ps kv. AList.update (fst kv) (snd kv) ps) target src"

text \<open>
  \<^verbatim>\<open>updated[k]\<close> and \<^verbatim>\<open>updated[k] = v\<close> for the object at address \<open>a\<close>. The assignment
  changes an own property or adds one. (The one key it treats otherwise is \<^verbatim>\<open>__proto__\<close>
  when it is not an own property: the assignment then replaces the prototype of the
  object. Objects of this heap have no prototype link of their own, so the statements
  below that depend on an assignment leave that key out.)
\<close>

definition readProp :: "'n engine \<Rightarrow> 'n heap \<Rightarrow> addr \<Rightarrow> string \<Rightarrow> 'n val" where
  "readProp eng h a k = getProp eng (ownProps h (VRef a)) k"

definition setProp :: "'n heap \<Rightarrow> addr \<Rightarrow> string \<Rightarrow> 'n val \<Rightarrow> 'n heap" where
  "setProp h a k v =
     (case cellAt h a of
        Some (Obj ps) \<Rightarrow> h[a := Obj (AList.update k v ps)]
      | _ \<Rightarrow> h)"

text \<open>\<^verbatim>\<open>arr.push(v)\<close>: the array cell itself is changed.\<close>

definition arrayPush :: "'n heap \<Rightarrow> 'n val \<Rightarrow> 'n val \<Rightarrow> 'n heap" where
  "arrayPush h arr v =
     (case arr of
        VRef a \<Rightarrow> (case cellAt h a of Some (Arr xs) \<Rightarrow> h[a := Arr (xs @ [v])] | _ \<Rightarrow> h)
      | _ \<Rightarrow> h)"

section \<open>Update Compiler (crud/crud.ts, applyUpdateOperators)\<close>

text \<open>
  The update specification: its entries for the four operators the function reads, in the
  order of the keys of the object. By the type \<^verbatim>\<open>UpdateFilter\<close> the operands of \<^verbatim>\<open>$inc\<close>
  are numbers. Other keys are never read.
\<close>

datatype 'n operator =
    SetOp "(string \<times> 'n val) list"
  | IncOp "(string \<times> 'n) list"
  | PushOp "(string \<times> 'n val) list"
  | PullOp "(string \<times> 'n val) list"

type_synonym 'n updateFilter = "'n operator list"

definition opKey :: "'n operator \<Rightarrow> string" where
  "opKey op =
     (case op of
        SetOp s \<Rightarrow> ''$set''
      | IncOp i \<Rightarrow> ''$inc''
      | PushOp p \<Rightarrow> ''$push''
      | PullOp p \<Rightarrow> ''$pull'')"

text \<open>\<^verbatim>\<open>update.$set\<close>, \<^verbatim>\<open>update.$inc\<close>, \<^verbatim>\<open>update.$push\<close>, \<^verbatim>\<open>update.$pull\<close>.\<close>

fun getSet :: "'n updateFilter \<Rightarrow> (string \<times> 'n val) list option" where
  "getSet [] = None"
| "getSet (SetOp s # u) = Some s"
| "getSet (_ # u) = getSet u"

fun getInc :: "'n updateFilter \<Rightarrow> (string \<times> 'n) list option" where
  "getInc [] = None"
| "getInc (IncOp i # u) = Some i"
| "getInc (_ # u) = getInc u"

fun getPush :: "'n updateFilter \<Rightarrow> (string \<times> 'n val) list option" where
  "getPush [] = None"
| "getPush (PushOp p # u) = Some p"
| "getPush (_ # u) = getPush u"

fun getPull :: "'n updateFilter \<Rightarrow> (string \<times> 'n val) list option" where
  "getPull [] = None"
| "getPull (PullOp p # u) = Some p"
| "getPull (_ # u) = getPull u"

text \<open>
  \<^verbatim>\<open>(updated[k] || 0) + d\<close> for a number \<open>d\<close>. The left operand is 0 when the value read is
  falsy (\<^verbatim>\<open>undefined\<close>, \<^verbatim>\<open>null\<close>, \<^verbatim>\<open>false\<close>, a zero, NaN, the empty string). Then \<^verbatim>\<open>+\<close> adds
  two numbers with the addition of the runtime, \<^verbatim>\<open>true\<close> counting as 1; a non-empty string
  is concatenated with the text of \<open>d\<close>; an array or an object is first converted to a
  string by the runtime.
\<close>

definition incValue :: "'n engine \<Rightarrow> 'n heap \<Rightarrow> 'n val \<Rightarrow> 'n \<Rightarrow> 'n val" where
  "incValue eng h v d =
     (case v of
        VUndefined \<Rightarrow> VNum (numAdd eng (numZero eng) d)
      | VNull \<Rightarrow> VNum (numAdd eng (numZero eng) d)
      | VBool b \<Rightarrow> VNum (numAdd eng (if b then numOne eng else numZero eng) d)
      | VNum n \<Rightarrow> VNum (numAdd eng (if numFalsy eng n then numZero eng else n) d)
      | VStr s \<Rightarrow> (if s = [] then VNum (numAdd eng (numZero eng) d) else VStr (s @ numText eng d))
      | VRef a \<Rightarrow> VStr (objectText eng h a @ numText eng d))"

text \<open>\<^verbatim>\<open>for (const k in update.$inc) updated[k] = (updated[k] || 0) + update.$inc[k]\<close>\<close>

fun incLoop :: "'n engine \<Rightarrow> addr \<Rightarrow> (string \<times> 'n) list \<Rightarrow> 'n heap \<Rightarrow> 'n heap" where
  "incLoop eng updated [] h = h"
| "incLoop eng updated ((k, d) # rest) h =
     incLoop eng updated rest (setProp h updated k (incValue eng h (readProp eng h updated k) d))"

text \<open>
  \<^verbatim>\<open>if (!Array.isArray(updated[k])) updated[k] = []; updated[k].push(update.$push[k]);\<close>
\<close>

definition pushStep :: "'n engine \<Rightarrow> addr \<Rightarrow> string \<Rightarrow> 'n val \<Rightarrow> 'n heap \<Rightarrow> 'n heap" where
  "pushStep eng updated k v h =
     (let h1 = (if \<not> isArrayV h (readProp eng h updated k)
                then (case alloc (Arr []) h of (a, h') \<Rightarrow> setProp h' updated k (VRef a))
                else h)
      in arrayPush h1 (readProp eng h1 updated k) v)"

fun pushLoop :: "'n engine \<Rightarrow> addr \<Rightarrow> (string \<times> 'n val) list \<Rightarrow> 'n heap \<Rightarrow> 'n heap" where
  "pushLoop eng updated [] h = h"
| "pushLoop eng updated ((k, v) # rest) h = pushLoop eng updated rest (pushStep eng updated k v h)"

text \<open>
  \<^verbatim>\<open>if (Array.isArray(updated[k])) updated[k] = updated[k].filter(v => v !== update.$pull[k]);\<close>
  \<^verbatim>\<open>filter\<close> builds a new array; \<^verbatim>\<open>!==\<close> compares two numbers as the runtime does, the
  other primitives by value and objects by address.
\<close>

definition strictEq :: "'n engine \<Rightarrow> 'n val \<Rightarrow> 'n val \<Rightarrow> bool" where
  "strictEq eng v p =
     (case v of
        VNum a \<Rightarrow> (case p of VNum b \<Rightarrow> numEq eng a b | _ \<Rightarrow> False)
      | _ \<Rightarrow> v = p)"

definition pullStep :: "'n engine \<Rightarrow> addr \<Rightarrow> string \<Rightarrow> 'n val \<Rightarrow> 'n heap \<Rightarrow> 'n heap" where
  "pullStep eng updated k p h =
     (if isArrayV h (readProp eng h updated k)
      then (case alloc (Arr (filter (\<lambda>v. \<not> strictEq eng v p)
                               (arrayElems h (readProp eng h updated k)))) h of
              (b, h') \<Rightarrow> setProp h' updated k (VRef b))
      else h)"

fun pullLoop :: "'n engine \<Rightarrow> addr \<Rightarrow> (string \<times> 'n val) list \<Rightarrow> 'n heap \<Rightarrow> 'n heap" where
  "pullLoop eng updated [] h = h"
| "pullLoop eng updated ((k, p) # rest) h = pullLoop eng updated rest (pullStep eng updated k p h)"

text \<open>
  \<^verbatim>\<open>applyUpdateOperators(doc, update)\<close>, in four steps. \<open>copyDoc\<close> is
  \<^verbatim>\<open>let updated = { ...doc }\<close>: a new object with the own properties of \<open>doc\<close>. \<open>setStage\<close>
  is \<^verbatim>\<open>updated = { ...updated, ...update.$set }\<close>: another new object. The other three
  stages work on the object \<open>updated\<close> in place.
\<close>

definition copyDoc :: "'n val \<Rightarrow> 'n heap \<Rightarrow> addr \<times> 'n heap" where
  "copyDoc doc h = alloc (Obj (ownProps h doc)) h"

definition setStage :: "'n updateFilter \<Rightarrow> addr \<times> 'n heap \<Rightarrow> addr \<times> 'n heap" where
  "setStage u st =
     (case st of (updated, h) \<Rightarrow>
        (case getSet u of
           None \<Rightarrow> (updated, h)
         | Some s \<Rightarrow> alloc (Obj (assignAll (ownProps h (VRef updated)) s)) h))"

definition incStage ::
  "'n engine \<Rightarrow> 'n updateFilter \<Rightarrow> addr \<times> 'n heap \<Rightarrow> addr \<times> 'n heap" where
  "incStage eng u st =
     (case st of (updated, h) \<Rightarrow>
        (case getInc u of
           None \<Rightarrow> (updated, h)
         | Some i \<Rightarrow> (updated, incLoop eng updated i h)))"

definition pushStage ::
  "'n engine \<Rightarrow> 'n updateFilter \<Rightarrow> addr \<times> 'n heap \<Rightarrow> addr \<times> 'n heap" where
  "pushStage eng u st =
     (case st of (updated, h) \<Rightarrow>
        (case getPush u of
           None \<Rightarrow> (updated, h)
         | Some p \<Rightarrow> (updated, pushLoop eng updated p h)))"

definition pullStage ::
  "'n engine \<Rightarrow> 'n updateFilter \<Rightarrow> addr \<times> 'n heap \<Rightarrow> addr \<times> 'n heap" where
  "pullStage eng u st =
     (case st of (updated, h) \<Rightarrow>
        (case getPull u of
           None \<Rightarrow> (updated, h)
         | Some p \<Rightarrow> (updated, pullLoop eng updated p h)))"

definition applyUpdateOperators ::
  "'n engine \<Rightarrow> 'n val \<Rightarrow> 'n updateFilter \<Rightarrow> 'n heap \<Rightarrow> 'n val \<times> 'n heap" where
  "applyUpdateOperators eng doc u h =
     (case pullStage eng u (pushStage eng u (incStage eng u (setStage u (copyDoc doc h)))) of
        (updated, h') \<Rightarrow> (VRef updated, h'))"

text \<open>\<^verbatim>\<open>v[k]\<close> for a document \<open>v\<close> of the heap.\<close>

definition fieldOf :: "'n engine \<Rightarrow> 'n heap \<Rightarrow> 'n val \<Rightarrow> string \<Rightarrow> 'n val" where
  "fieldOf eng h v k = getProp eng (ownProps h v) k"

text \<open>
  The values \<^verbatim>\<open>(x || 0) + d\<close> adds as numbers: everything but a non-empty string, an array
  or an object. \<open>startNumber\<close> is the number such a value counts as, and \<open>orZero\<close> is
  \<^verbatim>\<open>n || 0\<close> for a number \<open>n\<close>.
\<close>

definition addsAsNumber :: "'n val \<Rightarrow> bool" where
  "addsAsNumber v = (case v of VStr s \<Rightarrow> s = [] | VRef a \<Rightarrow> False | _ \<Rightarrow> True)"

definition orZero :: "'n engine \<Rightarrow> 'n \<Rightarrow> 'n" where
  "orZero eng n = (if numFalsy eng n then numZero eng else n)"

definition startNumber :: "'n engine \<Rightarrow> 'n val \<Rightarrow> 'n" where
  "startNumber eng v =
     (case v of
        VNum n \<Rightarrow> orZero eng n
      | VBool b \<Rightarrow> (if b then numOne eng else numZero eng)
      | _ \<Rightarrow> numZero eng)"

text \<open>
  The additions of two increments by \<open>d\<close>, starting from the number \<open>s\<close>, are exact under a
  reading \<open>rd\<close> of the runtime's numbers as real numbers: each sum reads as the sum of the
  readings, and \<^verbatim>\<open>|| 0\<close> leaves the reading of the first sum as it is (it replaces a zero
  by 0). \<open>numberValue\<close> reads a value that is a number.
\<close>

definition exactTwice :: "'n engine \<Rightarrow> ('n \<Rightarrow> real) \<Rightarrow> 'n \<Rightarrow> 'n \<Rightarrow> bool" where
  "exactTwice eng rd s d =
     (let m = numAdd eng s d; m' = orZero eng m
      in rd m = rd s + rd d \<and> rd m' = rd m \<and> rd (numAdd eng m' d) = rd m' + rd d)"

definition numberValue :: "('n \<Rightarrow> real) \<Rightarrow> 'n val \<Rightarrow> real option" where
  "numberValue rd v = (case v of VNum n \<Rightarrow> Some (rd n) | _ \<Rightarrow> None)"

text \<open>The number of elements of an array value; 0 for a value that is not an array.\<close>

definition arrayLength :: "'n heap \<Rightarrow> 'n val \<Rightarrow> nat" where
  "arrayLength h v = length (arrayElems h v)"

text \<open>
  The specification's reading of the update order, to compare with the code: the
  operators of a list are applied one after the other, in the order of the list
  (\<open>applyInOrder\<close>), and \<open>fixedOrder\<close> lists the entries of an update specification as
  replacement, increment, append, removal.
\<close>

definition applyEntry ::
  "'n engine \<Rightarrow> 'n operator \<Rightarrow> addr \<times> 'n heap \<Rightarrow> addr \<times> 'n heap" where
  "applyEntry eng op st =
     (case st of (updated, h) \<Rightarrow>
        (case op of
           SetOp s \<Rightarrow> alloc (Obj (assignAll (ownProps h (VRef updated)) s)) h
         | IncOp i \<Rightarrow> (updated, incLoop eng updated i h)
         | PushOp p \<Rightarrow> (updated, pushLoop eng updated p h)
         | PullOp p \<Rightarrow> (updated, pullLoop eng updated p h)))"

definition applyInOrder ::
  "'n engine \<Rightarrow> 'n operator list \<Rightarrow> 'n val \<Rightarrow> 'n heap \<Rightarrow> 'n val \<times> 'n heap" where
  "applyInOrder eng ops doc h =
     (case foldl (\<lambda>st op. applyEntry eng op st) (copyDoc doc h) ops of
        (updated, h') \<Rightarrow> (VRef updated, h'))"

definition fixedOrder :: "'n updateFilter \<Rightarrow> 'n operator list" where
  "fixedOrder u =
     filter (\<lambda>op. opKey op = ''$set'') u @ filter (\<lambda>op. opKey op = ''$inc'') u @
     filter (\<lambda>op. opKey op = ''$push'') u @ filter (\<lambda>op. opKey op = ''$pull'') u"

text \<open>The heap of a state of \<^verbatim>\<open>applyUpdateOperators\<close> is the heap \<open>h\<close> followed by new
  cells, and \<open>updated\<close> is one of the new cells.\<close>

definition extends :: "'n heap \<Rightarrow> addr \<times> 'n heap \<Rightarrow> bool" where
  "extends h st = (case st of (updated, h') \<Rightarrow> (\<exists>ext. h' = h @ ext) \<and> length h \<le> updated)"

text \<open>
  Engines for the examples. Their numbers are the integers, which a double holds and adds
  exactly as long as they stay between \<^verbatim>\<open>-2^53\<close> and \<^verbatim>\<open>2^53\<close>, and the text of an object is
  \<^verbatim>\<open>[object Object]\<close>. Objects inherit nothing in \<open>exampleEngine\<close>; in \<open>protoEngine\<close> they
  inherit \<^verbatim>\<open>toString\<close>, a function that is the object at address 0 of the heap and has
  the text of a built-in function. The
  addition of \<open>roundingEngine\<close> rounds the one sum \<^verbatim>\<open>2^53 + 1\<close> as the addition of doubles
  does, to \<^verbatim>\<open>2^53\<close>.
\<close>

definition intEngine :: "(string \<Rightarrow> int val option) \<Rightarrow> int engine" where
  "intEngine proto =
     \<lparr>numAdd = (\<lambda>a b. a + b), numZero = 0, numOne = 1, numFalsy = (\<lambda>n. n = 0),
      numEq = (\<lambda>a b. a = b), numText = showInt,
      objectText = (\<lambda>h a. ''[object Object]''), inherited = proto\<rparr>"

definition exampleEngine :: "int engine" where
  "exampleEngine = intEngine (\<lambda>k. None)"

definition protoEngine :: "int engine" where
  "protoEngine =
     (intEngine (\<lambda>k. if k = ''toString'' then Some (VRef 0) else None))
       \<lparr>objectText :=
          (\<lambda>h a. if a = 0 then ''function toString() { [native code] }'' else ''[object Object]'')\<rparr>"

definition roundingEngine :: "int engine" where
  "roundingEngine =
     exampleEngine\<lparr>numAdd := (\<lambda>a b. if a + b = 9007199254740993 then 9007199254740992 else a + b)\<rparr>"

section \<open>Reading decoded values\<close>

text \<open>Truthiness, as \<^verbatim>\<open>if (v)\<close> and \<^verbatim>\<open>v || w\<close> test it.\<close>

definition truthy :: "jv \<Rightarrow> bool" where
  "truthy v =
     (case v of
        JUndefined \<Rightarrow> False
      | JNull \<Rightarrow> False
      | JBool b \<Rightarrow> b
      | JNum n \<Rightarrow> n \<noteq> 0
      | JStr s \<Rightarrow> s \<noteq> []
      | _ \<Rightarrow> True)"

definition lookupProp :: "(string \<times> jv) list \<Rightarrow> string \<Rightarrow> jv" where
  "lookupProp kvs k = (case map_of kvs k of None \<Rightarrow> JUndefined | Some v \<Rightarrow> v)"

text \<open>
  \<^verbatim>\<open>v[k]\<close>: reading a property of \<^verbatim>\<open>null\<close> or \<^verbatim>\<open>undefined\<close> raises a TypeError; an array
  and a string have their indices and \<^verbatim>\<open>length\<close>; \<open>optField\<close> is \<^verbatim>\<open>v?.[k]\<close>.
\<close>

definition propertyOf :: "jv \<Rightarrow> string \<Rightarrow> jv" where
  "propertyOf v k =
     (case v of
        JObj kvs \<Rightarrow> lookupProp kvs k
      | JArr xs \<Rightarrow> (if k = ''length'' then JNum (int (length xs)) else lookupProp (indexed xs) k)
      | JStr s \<Rightarrow>
          (if k = ''length'' then JNum (int (length s))
           else lookupProp (indexed (map (\<lambda>c. JStr [c]) s)) k)
      | _ \<Rightarrow> JUndefined)"

definition getField :: "jv \<Rightarrow> string \<Rightarrow> error + jv" where
  "getField v k =
     (case v of
        JUndefined \<Rightarrow> Inl TypeError
      | JNull \<Rightarrow> Inl TypeError
      | _ \<Rightarrow> Inr (propertyOf v k))"

definition optField :: "jv \<Rightarrow> string \<Rightarrow> jv" where
  "optField v k =
     (case v of
        JUndefined \<Rightarrow> JUndefined
      | JNull \<Rightarrow> JUndefined
      | _ \<Rightarrow> propertyOf v k)"

section \<open>Pipeline Compiler: the unwind stage (aggregate/aggregate.ts)\<close>

text \<open>\<^verbatim>\<open>stage.$unwind.replace(/^\$/, '')\<close>: one leading dollar sign is removed.\<close>

definition stripDollar :: "string \<Rightarrow> string" where
  "stripDollar s = (case s of [] \<Rightarrow> [] | c # cs \<Rightarrow> if c = CHR ''$'' then cs else s)"

text \<open>
  \<^verbatim>\<open>for (const val of doc[path]) unwound.push({ ...doc, [path]: val });\<close>
\<close>

fun pushElements :: "jv \<Rightarrow> string \<Rightarrow> jv list \<Rightarrow> jv list \<Rightarrow> jv list" where
  "pushElements doc path [] unwound = unwound"
| "pushElements doc path (val # vals) unwound =
     pushElements doc path vals (unwound @ [JObj (AList.update path val (ownEntries doc))])"

text \<open>\<^verbatim>\<open>for (const doc of result)\<close>, with \<^verbatim>\<open>unwound\<close> as accumulator.\<close>

fun unwindDocs :: "string \<Rightarrow> jv list \<Rightarrow> jv list \<Rightarrow> error + jv list" where
  "unwindDocs path [] unwound = Inr unwound"
| "unwindDocs path (doc # rest) unwound =
     (case getField doc path of
        Inl e \<Rightarrow> Inl e
      | Inr v \<Rightarrow>
          if isArray v then unwindDocs path rest (pushElements doc path (elems v) unwound)
          else unwindDocs path rest (unwound @ [doc]))"

text \<open>
  The body of \<^verbatim>\<open>for (const stage of pipeline)\<close> after the rows are decoded: a stage with a
  truthy \<^verbatim>\<open>$unwind\<close> replaces \<^verbatim>\<open>result\<close>; a \<^verbatim>\<open>$unwind\<close> that is not a string has no
  \<^verbatim>\<open>replace\<close> method.
\<close>

definition unwindStage :: "jv \<Rightarrow> jv list \<Rightarrow> error + jv list" where
  "unwindStage stage result =
     (case getField stage ''$unwind'' of
        Inl e \<Rightarrow> Inl e
      | Inr u \<Rightarrow>
          if truthy u then
            (case u of
               JStr s \<Rightarrow> unwindDocs (stripDollar s) result []
             | _ \<Rightarrow> Inl TypeError)
          else Inr result)"

fun unwindStages :: "jv list \<Rightarrow> jv list \<Rightarrow> error + jv list" where
  "unwindStages [] result = Inr result"
| "unwindStages (stage # pipeline) result =
     (case unwindStage stage result of
        Inl e \<Rightarrow> Inl e
      | Inr unwound \<Rightarrow> unwindStages pipeline unwound)"

text \<open>
  The specification's reading of unwind on one document, to compare with the loops: a
  document whose value at the path is a sequence gives one document per element, with the
  field replaced by the element; any other document is passed through.
\<close>

definition unwindDocument :: "string \<Rightarrow> (string \<times> jv) list \<Rightarrow> jv list" where
  "unwindDocument path doc =
     (case map_of doc path of
        Some (JArr xs) \<Rightarrow> map (\<lambda>x. JObj (AList.update path x doc)) xs
      | _ \<Rightarrow> [JObj doc])"

section \<open>The driver, the runtime and the trace of calls\<close>

text \<open>
  \<^verbatim>\<open>BaseDriver\<close> is abstract: each method is a function of the database state \<open>'db\<close> that
  returns a value or a failure and the next state. \<open>'s\<close> is the type of sessions. Every
  call the modelled code makes is recorded, in order, in a trace; \<open>Work\<close> records that the
  caller-supplied function of a transaction ran.
\<close>

datatype 's call =
    TableExists string
  | Query string "jv list"
  | StartSession
  | Work 's
  | Commit 's
  | Rollback 's
  | Release 's

record ('db, 's) driver =
  getDialect :: string
  tableExists :: "string \<Rightarrow> 'db \<Rightarrow> (error + bool) \<times> 'db"
  query :: "string \<Rightarrow> jv list \<Rightarrow> 'db \<Rightarrow> (error + jv list) \<times> 'db"
  startSession :: "'db \<Rightarrow> (error + 's) \<times> 'db"
  commit :: "'s \<Rightarrow> 'db \<Rightarrow> (error + unit) \<times> 'db"
  rollback :: "'s \<Rightarrow> 'db \<Rightarrow> (error + unit) \<times> 'db"
  release :: "'s \<Rightarrow> 'db \<Rightarrow> (error + unit) \<times> 'db"

type_synonym ('db, 's) world = "'db \<times> 's call list"

text \<open>
  What the code uses of the JavaScript runtime without defining it: \<^verbatim>\<open>JSON.parse\<close>,
  \<^verbatim>\<open>JSON.stringify\<close>, the text of \<^verbatim>\<open>Number(v)\<close> in a template literal, and the engine of
  \<^verbatim>\<open>applyUpdateOperators\<close> (the numbers of a decoded value being integers).
\<close>

record runtime =
  jsonParse :: "jv \<Rightarrow> error + jv"
  jsonStringify :: "jv \<Rightarrow> jv"
  numberText :: "jv \<Rightarrow> string"
  jsEngine :: "int engine"

definition callTableExists ::
  "('db, 's) driver \<Rightarrow> string \<Rightarrow> ('db, 's) world \<Rightarrow> (error + bool) \<times> ('db, 's) world" where
  "callTableExists drv table w =
     (case tableExists drv table (fst w) of (r, db') \<Rightarrow> (r, (db', snd w @ [TableExists table])))"

definition callQuery ::
  "('db, 's) driver \<Rightarrow> string \<Rightarrow> jv list \<Rightarrow> ('db, 's) world \<Rightarrow> (error + jv list) \<times> ('db, 's) world" where
  "callQuery drv sql params w =
     (case query drv sql params (fst w) of (r, db') \<Rightarrow> (r, (db', snd w @ [Query sql params])))"

definition callStartSession ::
  "('db, 's) driver \<Rightarrow> ('db, 's) world \<Rightarrow> (error + 's) \<times> ('db, 's) world" where
  "callStartSession drv w =
     (case startSession drv (fst w) of (r, db') \<Rightarrow> (r, (db', snd w @ [StartSession])))"

definition callWork ::
  "('s \<Rightarrow> 'db \<Rightarrow> (error + 'a) \<times> 'db) \<Rightarrow> 's \<Rightarrow> ('db, 's) world \<Rightarrow> (error + 'a) \<times> ('db, 's) world" where
  "callWork fn s w = (case fn s (fst w) of (r, db') \<Rightarrow> (r, (db', snd w @ [Work s])))"

definition callCommit ::
  "('db, 's) driver \<Rightarrow> 's \<Rightarrow> ('db, 's) world \<Rightarrow> (error + unit) \<times> ('db, 's) world" where
  "callCommit drv s w = (case commit drv s (fst w) of (r, db') \<Rightarrow> (r, (db', snd w @ [Commit s])))"

definition callRollback ::
  "('db, 's) driver \<Rightarrow> 's \<Rightarrow> ('db, 's) world \<Rightarrow> (error + unit) \<times> ('db, 's) world" where
  "callRollback drv s w =
     (case rollback drv s (fst w) of (r, db') \<Rightarrow> (r, (db', snd w @ [Rollback s])))"

definition callRelease ::
  "('db, 's) driver \<Rightarrow> 's \<Rightarrow> ('db, 's) world \<Rightarrow> (error + unit) \<times> ('db, 's) world" where
  "callRelease drv s w =
     (case release drv s (fst w) of (r, db') \<Rightarrow> (r, (db', snd w @ [Release s])))"

section \<open>find and countDocuments (crud/crud.ts)\<close>

record findOptions =
  opt_limit :: "int option"
  opt_skip :: "int option"
  opt_sort :: "(string \<times> int) list option"

definition noOptions :: findOptions where
  "noOptions = \<lparr>opt_limit = None, opt_skip = None, opt_sort = None\<rparr>"

text \<open>The default \<^verbatim>\<open>filter = {}\<close> of a parameter applies to \<^verbatim>\<open>undefined\<close>.\<close>

definition defaultFilter :: "jv \<Rightarrow> jv" where
  "defaultFilter flt = (if flt = JUndefined then JObj [] else flt)"

definition sortField :: "string \<times> int \<Rightarrow> string" where
  "sortField kv =
     ''JSON_UNQUOTE(JSON_EXTRACT(data, '' @ [CHR 0x27] @ ''$.'' @ fst kv @ [CHR 0x27] @ '')) ''
       @ (if snd kv = 1 then ''ASC'' else ''DESC'')"

definition whereText :: "string \<Rightarrow> string" where
  "whereText clause = (if clause \<noteq> [] then '' WHERE '' @ clause else [])"

definition orderText :: "findOptions \<Rightarrow> string" where
  "orderText options =
     (case opt_sort options of
        None \<Rightarrow> []
      | Some s \<Rightarrow> (if map sortField s \<noteq> [] then '' ORDER BY '' @ join '', '' (map sortField s) else []))"

definition limitText :: "findOptions \<Rightarrow> string" where
  "limitText options =
     (case opt_limit options of
        None \<Rightarrow> []
      | Some n \<Rightarrow> (if n \<noteq> 0 then '' LIMIT '' @ showInt n else []))"

definition offsetText :: "findOptions \<Rightarrow> string" where
  "offsetText options =
     (case opt_skip options of
        None \<Rightarrow> []
      | Some n \<Rightarrow> (if n \<noteq> 0 then '' OFFSET '' @ showInt n else []))"

text \<open>The statement \<^verbatim>\<open>find\<close> builds by appending to \<^verbatim>\<open>sql\<close>.\<close>

definition selectSql :: "string \<Rightarrow> string \<Rightarrow> findOptions \<Rightarrow> string" where
  "selectSql collection clause options =
     ((((''SELECT data FROM `'' @ collection @ ''`'') @ whereText clause) @ orderText options)
        @ limitText options) @ offsetText options"

text \<open>\<^verbatim>\<open>rows.map((r) => JSON.parse(r.data))\<close>\<close>

fun decodeRows :: "runtime \<Rightarrow> jv list \<Rightarrow> error + jv list" where
  "decodeRows rt [] = Inr []"
| "decodeRows rt (r # rows) =
     (case getField r ''data'' of
        Inl e \<Rightarrow> Inl e
      | Inr d \<Rightarrow>
          (case jsonParse rt d of
             Inl e \<Rightarrow> Inl e
           | Inr doc \<Rightarrow>
               (case decodeRows rt rows of
                  Inl e \<Rightarrow> Inl e
                | Inr docs \<Rightarrow> Inr (doc # docs))))"

definition find_crud ::
  "('db, 's) driver \<Rightarrow> runtime \<Rightarrow> string \<Rightarrow> jv \<Rightarrow> findOptions \<Rightarrow> ('db, 's) world
     \<Rightarrow> (error + jv list) \<times> ('db, 's) world" where
  "find_crud drv rt collection flt options w =
     (case callTableExists drv collection w of
        (Inl e, w1) \<Rightarrow> (Inl e, w1)
      | (Inr exists, w1) \<Rightarrow>
          if \<not> exists then (Inr [], w1)
          else
            (case buildWhereClause (getDialect drv) (defaultFilter flt) of
               Inl e \<Rightarrow> (Inl e, w1)
             | Inr (clause, params) \<Rightarrow>
                 (case callQuery drv (selectSql collection clause options) params w1 of
                    (Inl e, w2) \<Rightarrow> (Inl e, w2)
                  | (Inr rows, w2) \<Rightarrow> (decodeRows rt rows, w2))))"

definition countSql :: "string \<Rightarrow> string \<Rightarrow> string" where
  "countSql collection clause =
     (''SELECT COUNT('' @ ''*) as count FROM `'' @ collection @ ''`'') @ whereText clause"

text \<open>\<^verbatim>\<open>rows[0]?.count || 0\<close>\<close>

definition firstCount :: "jv list \<Rightarrow> jv" where
  "firstCount rows =
     (case rows of
        [] \<Rightarrow> JNum 0
      | r # _ \<Rightarrow> (if truthy (optField r ''count'') then optField r ''count'' else JNum 0))"

definition countDocuments ::
  "('db, 's) driver \<Rightarrow> string \<Rightarrow> jv \<Rightarrow> ('db, 's) world \<Rightarrow> (error + jv) \<times> ('db, 's) world" where
  "countDocuments drv collection flt w =
     (case callTableExists drv collection w of
        (Inl e, w1) \<Rightarrow> (Inl e, w1)
      | (Inr exists, w1) \<Rightarrow>
          if \<not> exists then (Inr (JNum 0), w1)
          else
            (case buildWhereClause (getDialect drv) (defaultFilter flt) of
               Inl e \<Rightarrow> (Inl e, w1)
             | Inr (clause, params) \<Rightarrow>
                 (case callQuery drv (countSql collection clause) params w1 of
                    (Inl e, w2) \<Rightarrow> (Inl e, w2)
                  | (Inr rows, w2) \<Rightarrow> (Inr (firstCount rows), w2))))"

section \<open>deleteMany (crud/crud.ts)\<close>

datatype deleteResult = DeleteResult (del_acknowledged: bool) (deletedCount: nat)

definition deleteSql :: "string \<Rightarrow> string" where
  "deleteSql collection =
     ''DELETE FROM `'' @ collection @ ''` WHERE JSON_EXTRACT(data, '' @ [CHR 0x27] @ ''$.id''
       @ [CHR 0x27] @ '') = ?''"

text \<open>\<^verbatim>\<open>limit && count >= limit\<close> for an optional number \<^verbatim>\<open>limit\<close>.\<close>

definition limitReached :: "int option \<Rightarrow> nat \<Rightarrow> bool" where
  "limitReached limit n = (case limit of None \<Rightarrow> False | Some l \<Rightarrow> l \<noteq> 0 \<and> l \<le> int n)"

text \<open>The loop \<^verbatim>\<open>for (let i = 0; i < docs.length; i++)\<close> of \<^verbatim>\<open>deleteMany\<close>, on the
  documents still to visit.\<close>

fun deleteLoop ::
  "('db, 's) driver \<Rightarrow> string \<Rightarrow> int option \<Rightarrow> jv list \<Rightarrow> nat \<Rightarrow> ('db, 's) world
     \<Rightarrow> (error + nat) \<times> ('db, 's) world" where
  "deleteLoop drv collection limit [] deleted w = (Inr deleted, w)"
| "deleteLoop drv collection limit (doc # docs) deleted w =
     (if limitReached limit deleted then (Inr deleted, w)
      else
        (case getField doc ''id'' of
           Inl e \<Rightarrow> (Inl e, w)
         | Inr ident \<Rightarrow>
             (case callQuery drv (deleteSql collection) [ident] w of
                (Inl e, w1) \<Rightarrow> (Inl e, w1)
              | (Inr rows, w1) \<Rightarrow> deleteLoop drv collection limit docs (Suc deleted) w1)))"

definition deleteMany ::
  "('db, 's) driver \<Rightarrow> runtime \<Rightarrow> string \<Rightarrow> jv \<Rightarrow> int option \<Rightarrow> ('db, 's) world
     \<Rightarrow> (error + deleteResult) \<times> ('db, 's) world" where
  "deleteMany drv rt collection flt limit w =
     (case callTableExists drv collection w of
        (Inl e, w1) \<Rightarrow> (Inl e, w1)
      | (Inr exists, w1) \<Rightarrow>
          if \<not> exists then (Inr (DeleteResult True 0), w1)
          else
            (case find_crud drv rt collection flt noOptions w1 of
               (Inl e, w2) \<Rightarrow> (Inl e, w2)
             | (Inr docs, w2) \<Rightarrow>
                 (case deleteLoop drv collection limit docs 0 w2 of
                    (Inl e, w3) \<Rightarrow> (Inl e, w3)
                  | (Inr deleted, w3) \<Rightarrow> (Inr (DeleteResult True deleted), w3))))"

section \<open>updateMany (crud/crud.ts)\<close>

text \<open>
  A decoded document is a fresh tree of objects; \<open>load\<close> places it in the heap, where
  \<^verbatim>\<open>applyUpdateOperators\<close> works. \<open>snapshot\<close> reads a value of the heap back as a tree, to a
  given depth: \<open>None\<close> when the depth does not suffice, as for a cyclic value, which
  \<^verbatim>\<open>JSON.stringify\<close> rejects with a TypeError.
\<close>

fun load :: "jv \<Rightarrow> int heap \<Rightarrow> int val \<times> int heap"
  and loadList :: "jv list \<Rightarrow> int heap \<Rightarrow> int val list \<times> int heap"
  and loadProps :: "(string \<times> jv) list \<Rightarrow> int heap \<Rightarrow> (string \<times> int val) list \<times> int heap"
where
  "load JUndefined h = (VUndefined, h)"
| "load JNull h = (VNull, h)"
| "load (JBool b) h = (VBool b, h)"
| "load (JNum n) h = (VNum n, h)"
| "load (JStr s) h = (VStr s, h)"
| "load (JArr xs) h =
     (case loadList xs h of (vs, h1) \<Rightarrow> (case alloc (Arr vs) h1 of (a, h2) \<Rightarrow> (VRef a, h2)))"
| "load (JObj kvs) h =
     (case loadProps kvs h of (ps, h1) \<Rightarrow> (case alloc (Obj ps) h1 of (a, h2) \<Rightarrow> (VRef a, h2)))"
| "loadList [] h = ([], h)"
| "loadList (x # xs) h =
     (case load x h of (v, h1) \<Rightarrow> (case loadList xs h1 of (vs, h2) \<Rightarrow> (v # vs, h2)))"
| "loadProps [] h = ([], h)"
| "loadProps ((k, x) # kvs) h =
     (case load x h of (v, h1) \<Rightarrow> (case loadProps kvs h1 of (ps, h2) \<Rightarrow> ((k, v) # ps, h2)))"

fun snapshot :: "nat \<Rightarrow> int heap \<Rightarrow> int val \<Rightarrow> jv option" where
  "snapshot n h VUndefined = Some JUndefined"
| "snapshot n h VNull = Some JNull"
| "snapshot n h (VBool b) = Some (JBool b)"
| "snapshot n h (VNum i) = Some (JNum i)"
| "snapshot n h (VStr s) = Some (JStr s)"
| "snapshot 0 h (VRef a) = None"
| "snapshot (Suc n) h (VRef a) =
     (case cellAt h a of
        None \<Rightarrow> None
      | Some (Arr xs) \<Rightarrow> map_option JArr (those (map (snapshot n h) xs))
      | Some (Obj ps) \<Rightarrow>
          map_option JObj
            (those (map (\<lambda>kv. map_option (Pair (fst kv)) (snapshot n h (snd kv))) ps)))"

text \<open>A value without a cycle is read back within the depth \<open>length h + 1\<close>.\<close>

definition readBack :: "int heap \<Rightarrow> int val \<Rightarrow> error + jv" where
  "readBack h v = (case snapshot (Suc (length h)) h v of None \<Rightarrow> Inl TypeError | Some t \<Rightarrow> Inr t)"

text \<open>\<^verbatim>\<open>(doc as any).id\<close> for a document of the heap.\<close>

definition fieldStrict :: "'n engine \<Rightarrow> 'n heap \<Rightarrow> 'n val \<Rightarrow> string \<Rightarrow> error + 'n val" where
  "fieldStrict eng h v k =
     (case v of
        VUndefined \<Rightarrow> Inl TypeError
      | VNull \<Rightarrow> Inl TypeError
      | _ \<Rightarrow> Inr (fieldOf eng h v k))"

datatype updateResult =
  UpdateResult (upd_acknowledged: bool) (matchedCount: nat) (modifiedCount: nat)

definition updateSql :: "string \<Rightarrow> string" where
  "updateSql collection =
     ''UPDATE `'' @ collection @ ''` SET data = ? WHERE JSON_EXTRACT(data, '' @ [CHR 0x27]
       @ ''$.id'' @ [CHR 0x27] @ '') = ?''"

text \<open>
  The loop of \<^verbatim>\<open>updateMany\<close>, on the documents still to visit. The heap is threaded
  through the iterations: the arrays of the update specification live in it.
\<close>

fun updateLoop ::
  "('db, 's) driver \<Rightarrow> runtime \<Rightarrow> string \<Rightarrow> int updateFilter \<Rightarrow> int option \<Rightarrow> int val list \<Rightarrow> nat
     \<Rightarrow> ('db, 's) world \<times> int heap \<Rightarrow> (error + nat) \<times> ('db, 's) world \<times> int heap" where
  "updateLoop drv rt collection update limit [] modified st = (Inr modified, st)"
| "updateLoop drv rt collection update limit (doc # docs) modified st =
     (case st of (w, h) \<Rightarrow>
        if limitReached limit modified then (Inr modified, (w, h))
        else
          (case applyUpdateOperators (jsEngine rt) doc update h of (updated, h1) \<Rightarrow>
             (case readBack h1 updated of
                Inl e \<Rightarrow> (Inl e, (w, h1))
              | Inr tree \<Rightarrow>
                  (case fieldStrict (jsEngine rt) h1 doc ''id'' of
                     Inl e \<Rightarrow> (Inl e, (w, h1))
                   | Inr identV \<Rightarrow>
                       (case readBack h1 identV of
                          Inl e \<Rightarrow> (Inl e, (w, h1))
                        | Inr ident \<Rightarrow>
                            (case callQuery drv (updateSql collection)
                                    [jsonStringify rt tree, ident] w of
                               (Inl e, w1) \<Rightarrow> (Inl e, (w1, h1))
                             | (Inr rows, w1) \<Rightarrow>
                                 updateLoop drv rt collection update limit docs (Suc modified)
                                   (w1, h1)))))))"

definition updateMany ::
  "('db, 's) driver \<Rightarrow> runtime \<Rightarrow> string \<Rightarrow> jv \<Rightarrow> int updateFilter \<Rightarrow> int option
     \<Rightarrow> ('db, 's) world \<times> int heap \<Rightarrow> (error + updateResult) \<times> ('db, 's) world \<times> int heap" where
  "updateMany drv rt collection flt update limit st =
     (case st of (w, h) \<Rightarrow>
        (case callTableExists drv collection w of
           (Inl e, w1) \<Rightarrow> (Inl e, (w1, h))
         | (Inr exists, w1) \<Rightarrow>
             if \<not> exists then (Inr (UpdateResult True 0 0), (w1, h))
             else
               (case find_crud drv rt collection flt noOptions w1 of
                  (Inl e, w2) \<Rightarrow> (Inl e, (w2, h))
                | (Inr docs, w2) \<Rightarrow>
                    if docs = [] then (Inr (UpdateResult True 0 0), (w2, h))
                    else
                      (case loadList docs h of (vals, h1) \<Rightarrow>
                         (case updateLoop drv rt collection update limit vals 0 (w2, h1) of
                            (Inl e, st') \<Rightarrow> (Inl e, st')
                          | (Inr modified, st') \<Rightarrow>
                              (Inr (UpdateResult True (length docs) modified), st'))))))"

section \<open>findWithCursor (crud/crud.ts)\<close>

record cursorOptions =
  co_cursorField :: "string option"
  co_cursorValue :: jv
  co_limit :: "int option"
  co_reverse :: "bool option"
  co_count :: "bool option"
  co_sort :: "(string \<times> int) list option"
  co_skip :: "int option"

text \<open>The defaults of the destructuring of \<^verbatim>\<open>options\<close>.\<close>

definition cursorFieldOf :: "cursorOptions \<Rightarrow> string" where
  "cursorFieldOf options = (case co_cursorField options of None \<Rightarrow> ''id'' | Some f \<Rightarrow> f)"

definition limitOf :: "cursorOptions \<Rightarrow> int" where
  "limitOf options = (case co_limit options of None \<Rightarrow> 10 | Some n \<Rightarrow> n)"

definition reverseOf :: "cursorOptions \<Rightarrow> bool" where
  "reverseOf options = (case co_reverse options of None \<Rightarrow> False | Some b \<Rightarrow> b)"

definition countOf :: "cursorOptions \<Rightarrow> bool" where
  "countOf options = (case co_count options of None \<Rightarrow> False | Some b \<Rightarrow> b)"

definition sortOf :: "cursorOptions \<Rightarrow> (string \<times> int) list" where
  "sortOf options =
     (case co_sort options of
        None \<Rightarrow> [(cursorFieldOf options, if reverseOf options then - 1 else 1)]
      | Some s \<Rightarrow> s)"

text \<open>\<^verbatim>\<open>{ ...filter }\<close>, with the comparison on the cursor field when a cursor value is given.\<close>

definition cursorFilter :: "jv \<Rightarrow> cursorOptions \<Rightarrow> jv" where
  "cursorFilter flt options =
     (if co_cursorValue options \<noteq> JUndefined \<and> co_cursorValue options \<noteq> JNull then
        JObj (AList.update (cursorFieldOf options)
                (JObj [(if reverseOf options then ''$lt'' else ''$gt'', co_cursorValue options)])
                (ownEntries flt))
      else JObj (ownEntries flt))"

text \<open>\<^verbatim>\<open>data.length === limit ? data[data.length - 1]?.[cursorField] : undefined\<close>\<close>

definition lastOrUndefined :: "jv list \<Rightarrow> jv" where
  "lastOrUndefined data = (if data = [] then JUndefined else last data)"

definition nextCursorOf :: "jv list \<Rightarrow> int \<Rightarrow> string \<Rightarrow> jv" where
  "nextCursorOf data limit cursorField =
     (if int (length data) = limit then optField (lastOrUndefined data) cursorField
      else JUndefined)"

record cursorPage =
  page_data :: "jv list"
  nextCursor :: jv
  totalCount :: "jv option"

definition findWithCursor ::
  "('db, 's) driver \<Rightarrow> runtime \<Rightarrow> string \<Rightarrow> jv \<Rightarrow> cursorOptions \<Rightarrow> ('db, 's) world
     \<Rightarrow> (error + cursorPage) \<times> ('db, 's) world" where
  "findWithCursor drv rt collection flt options w =
     (case find_crud drv rt collection (cursorFilter (defaultFilter flt) options)
             \<lparr>opt_limit = Some (limitOf options), opt_skip = co_skip options,
              opt_sort = Some (sortOf options)\<rparr> w of
        (Inl e, w1) \<Rightarrow> (Inl e, w1)
      | (Inr data, w1) \<Rightarrow>
          if countOf options then
            (case countDocuments drv collection (defaultFilter flt) w1 of
               (Inl e, w2) \<Rightarrow> (Inl e, w2)
             | (Inr counted, w2) \<Rightarrow>
                 (Inr \<lparr>page_data = data,
                       nextCursor = nextCursorOf data (limitOf options) (cursorFieldOf options),
                       totalCount = Some counted\<rparr>, w2))
          else
            (Inr \<lparr>page_data = data,
                  nextCursor = nextCursorOf data (limitOf options) (cursorFieldOf options),
                  totalCount = None\<rparr>, w1))"

section \<open>withTransaction (transaction/transaction.ts)\<close>

text \<open>
  The \<^verbatim>\<open>try\<close> block runs the work and commits; a failure of either enters the \<^verbatim>\<open>catch\<close>
  block, which rolls back and throws the failure again, unless the rollback itself fails;
  the \<^verbatim>\<open>finally\<close> block releases the session on every path, and a failure of the release
  replaces the outcome.
\<close>

definition tryBlock ::
  "('db, 's) driver \<Rightarrow> ('s \<Rightarrow> 'db \<Rightarrow> (error + 'a) \<times> 'db) \<Rightarrow> 's \<Rightarrow> ('db, 's) world
     \<Rightarrow> (error + 'a) \<times> ('db, 's) world" where
  "tryBlock drv fn s w =
     (case callWork fn s w of
        (Inl err, w1) \<Rightarrow> (Inl err, w1)
      | (Inr result, w1) \<Rightarrow>
          (case callCommit drv s w1 of
             (Inl err, w2) \<Rightarrow> (Inl err, w2)
           | (Inr u, w2) \<Rightarrow> (Inr result, w2)))"

definition catchBlock ::
  "('db, 's) driver \<Rightarrow> 's \<Rightarrow> error \<Rightarrow> ('db, 's) world \<Rightarrow> (error + 'a) \<times> ('db, 's) world" where
  "catchBlock drv s err w =
     (case callRollback drv s w of
        (Inl err2, w1) \<Rightarrow> (Inl err2, w1)
      | (Inr u, w1) \<Rightarrow> (Inl err, w1))"

definition finallyBlock ::
  "('db, 's) driver \<Rightarrow> 's \<Rightarrow> (error + 'a) \<times> ('db, 's) world \<Rightarrow> (error + 'a) \<times> ('db, 's) world" where
  "finallyBlock drv s outcome =
     (case outcome of (r, w) \<Rightarrow>
        (case callRelease drv s w of
           (Inl err3, w1) \<Rightarrow> (Inl err3, w1)
         | (Inr u, w1) \<Rightarrow> (r, w1)))"

definition withTransaction ::
  "('db, 's) driver \<Rightarrow> ('s \<Rightarrow> 'db \<Rightarrow> (error + 'a) \<times> 'db) \<Rightarrow> ('db, 's) world
     \<Rightarrow> (error + 'a) \<times> ('db, 's) world" where
  "withTransaction drv fn w =
     (case callStartSession drv w of
        (Inl e, w1) \<Rightarrow> (Inl e, w1)
      | (Inr s, w1) \<Rightarrow>
          finallyBlock drv s
            (case tryBlock drv fn s w1 of
               (Inl err, w2) \<Rightarrow> catchBlock drv s err w2
             | (Inr result, w2) \<Rightarrow> (Inr result, w2)))"

section \<open>aggregate (aggregate/aggregate.ts)\<close>

text \<open>The text of a value in a template literal.\<close>

fun toText :: "jv \<Rightarrow> string" where
  "toText JUndefined = ''undefined''"
| "toText JNull = ''null''"
| "toText (JBool b) = (if b then ''true'' else ''false'')"
| "toText (JNum n) = showInt n"
| "toText (JStr s) = s"
| "toText (JArr xs) =
     join '','' (map (\<lambda>x. if x = JNull \<or> x = JUndefined then [] else toText x) xs)"
| "toText (JObj kvs) = ''[object Object]''"

text \<open>What the first loop over the pipeline collects.\<close>

record stageParts =
  groupStage :: jv
  projectStage :: jv
  whereClause :: string
  whereParams :: "jv list"
  sortClause :: string
  limitClause :: string
  offsetClause :: string

definition noParts :: stageParts where
  "noParts =
     \<lparr>groupStage = JNull, projectStage = JNull, whereClause = [], whereParams = [],
      sortClause = [], limitClause = [], offsetClause = []\<rparr>"

definition aggSortField :: "string \<Rightarrow> string \<times> jv \<Rightarrow> string" where
  "aggSortField dialect kv =
     parseKey dialect (fst kv) @ '' '' @ (if snd kv = JNum 1 then ''ASC'' else ''DESC'')"

text \<open>The body of the first loop, one \<^verbatim>\<open>if\<close> after the other; reading a stage that is
  \<^verbatim>\<open>null\<close> or \<^verbatim>\<open>undefined\<close> raises at the first of them.\<close>

definition matchPart :: "string \<Rightarrow> jv \<Rightarrow> stageParts \<Rightarrow> error + stageParts" where
  "matchPart dialect stage parts =
     (if truthy (propertyOf stage ''$match'') then
        (case buildWhereClause dialect (propertyOf stage ''$match'') of
           Inl e \<Rightarrow> Inl e
         | Inr (clause, params) \<Rightarrow> Inr (parts\<lparr>whereClause := clause, whereParams := params\<rparr>))
      else Inr parts)"

definition sortPart :: "string \<Rightarrow> jv \<Rightarrow> stageParts \<Rightarrow> stageParts" where
  "sortPart dialect stage parts =
     (if truthy (propertyOf stage ''$sort'') then
        parts\<lparr>sortClause :=
          ''ORDER BY '' @ join '', '' (map (aggSortField dialect) (ownEntries (propertyOf stage ''$sort'')))\<rparr>
      else parts)"

definition groupPart :: "jv \<Rightarrow> stageParts \<Rightarrow> stageParts" where
  "groupPart stage parts =
     (if truthy (propertyOf stage ''$group'') then parts\<lparr>groupStage := propertyOf stage ''$group''\<rparr>
      else parts)"

definition projectPart :: "jv \<Rightarrow> stageParts \<Rightarrow> stageParts" where
  "projectPart stage parts =
     (if truthy (propertyOf stage ''$project'') then
        parts\<lparr>projectStage := propertyOf stage ''$project''\<rparr>
      else parts)"

definition limitPart :: "runtime \<Rightarrow> jv \<Rightarrow> stageParts \<Rightarrow> stageParts" where
  "limitPart rt stage parts =
     (if truthy (propertyOf stage ''$limit'') then
        parts\<lparr>limitClause := ''LIMIT '' @ numberText rt (propertyOf stage ''$limit'')\<rparr>
      else parts)"

definition skipPart :: "runtime \<Rightarrow> jv \<Rightarrow> stageParts \<Rightarrow> stageParts" where
  "skipPart rt stage parts =
     (if truthy (propertyOf stage ''$skip'') then
        parts\<lparr>offsetClause := ''OFFSET '' @ numberText rt (propertyOf stage ''$skip'')\<rparr>
      else parts)"

definition parseStage :: "string \<Rightarrow> runtime \<Rightarrow> jv \<Rightarrow> stageParts \<Rightarrow> error + stageParts" where
  "parseStage dialect rt stage parts =
     (if stage = JNull \<or> stage = JUndefined then Inl TypeError
      else
        (case matchPart dialect stage parts of
           Inl e \<Rightarrow> Inl e
         | Inr p1 \<Rightarrow>
             Inr (skipPart rt stage (limitPart rt stage (projectPart stage (groupPart stage
                    (sortPart dialect stage p1)))))))"

fun parseStages :: "string \<Rightarrow> runtime \<Rightarrow> jv list \<Rightarrow> stageParts \<Rightarrow> error + stageParts" where
  "parseStages dialect rt [] parts = Inr parts"
| "parseStages dialect rt (stage # pipeline) parts =
     (case parseStage dialect rt stage parts of
        Inl e \<Rightarrow> Inl e
      | Inr parts' \<Rightarrow> parseStages dialect rt pipeline parts')"

text \<open>One accumulator expression of the group statement.\<close>

definition accumulator :: "string \<Rightarrow> string \<Rightarrow> jv \<Rightarrow> string \<Rightarrow> string" where
  "accumulator opening closing operand field =
     opening @ ''data->>'' @ [CHR 0x27] @ toText operand @ [CHR 0x27] @ closing @ '' AS ''
       @ [CHR 0x22] @ field @ [CHR 0x22]"

definition groupExpr :: "jv \<Rightarrow> string \<Rightarrow> string" where
  "groupExpr grp field =
     (let expr = propertyOf grp field in
      if typeofObject expr \<and> expr \<noteq> JNull then
        if truthy (propertyOf expr ''$sum'') then
          accumulator ''SUM(CAST('' '' AS NUMERIC))'' (propertyOf expr ''$sum'') field
        else if truthy (propertyOf expr ''$avg'') then
          accumulator ''AVG(CAST('' '' AS NUMERIC))'' (propertyOf expr ''$avg'') field
        else if truthy (propertyOf expr ''$min'') then
          accumulator ''MIN('' '')'' (propertyOf expr ''$min'') field
        else if truthy (propertyOf expr ''$max'') then
          accumulator ''MAX('' '')'' (propertyOf expr ''$max'') field
        else []
      else [])"

text \<open>The clauses the two statements share, each appended after a space when not empty.\<close>

definition spaced :: "string \<Rightarrow> string" where
  "spaced clause = (if clause \<noteq> [] then '' '' @ clause else [])"

definition groupSql :: "string \<Rightarrow> stageParts \<Rightarrow> string" where
  "groupSql collection parts =
     (let grp = groupStage parts;
          groupId = ''data->>'' @ [CHR 0x27] @ toText (propertyOf grp ''_id'') @ [CHR 0x27];
          groupExprs = map (groupExpr grp) (filter (\<lambda>k. k \<noteq> ''_id'') (map fst (ownEntries grp)))
      in ''SELECT '' @ groupId @ '' AS _id''
           @ (if groupExprs \<noteq> [] then '', '' @ join '', '' groupExprs else [])
           @ '' FROM '' @ [CHR 0x22] @ collection @ [CHR 0x22]
           @ whereText (whereClause parts)
           @ '' GROUP BY '' @ groupId
           @ spaced (sortClause parts) @ spaced (limitClause parts) @ spaced (offsetClause parts))"

definition plainSql :: "string \<Rightarrow> stageParts \<Rightarrow> string" where
  "plainSql collection parts =
     ''SELECT data FROM '' @ [CHR 0x22] @ collection @ [CHR 0x22]
       @ whereText (whereClause parts)
       @ spaced (sortClause parts) @ spaced (limitClause parts) @ spaced (offsetClause parts)"

text \<open>
  \<^verbatim>\<open>for (const key in projectStage) if (projectStage[key]) projected[key] = doc[key];\<close>
\<close>

fun projectFields :: "(string \<times> jv) list \<Rightarrow> jv \<Rightarrow> (string \<times> jv) list \<Rightarrow> error + (string \<times> jv) list" where
  "projectFields [] doc projected = Inr projected"
| "projectFields ((key, flag) # rest) doc projected =
     (if truthy flag then
        (case getField doc key of
           Inl e \<Rightarrow> Inl e
         | Inr v \<Rightarrow> projectFields rest doc (AList.update key v projected))
      else projectFields rest doc projected)"

fun projectDocs :: "jv \<Rightarrow> jv list \<Rightarrow> error + jv list" where
  "projectDocs proj [] = Inr []"
| "projectDocs proj (doc # docs) =
     (case projectFields (ownEntries proj) doc [] of
        Inl e \<Rightarrow> Inl e
      | Inr projected \<Rightarrow>
          (case projectDocs proj docs of
             Inl e \<Rightarrow> Inl e
           | Inr rest \<Rightarrow> Inr (JObj projected # rest)))"

text \<open>
  \<^verbatim>\<open>aggregate(driver, collection, pipeline)\<close>. A pipeline with a group stage returns the
  rows of the group statement as they are. Otherwise the rows are decoded, projected when
  a project stage was seen, and passed through the unwind stages of the pipeline in order.
\<close>

definition aggregate ::
  "('db, 's) driver \<Rightarrow> runtime \<Rightarrow> string \<Rightarrow> jv list \<Rightarrow> ('db, 's) world
     \<Rightarrow> (error + jv list) \<times> ('db, 's) world" where
  "aggregate drv rt collection pipeline w =
     (case parseStages (getDialect drv) rt pipeline noParts of
        Inl e \<Rightarrow> (Inl e, w)
      | Inr parts \<Rightarrow>
          if truthy (groupStage parts) then
            callQuery drv (groupSql collection parts) (whereParams parts) w
          else
            (case callQuery drv (plainSql collection parts) (whereParams parts) w of
               (Inl e, w1) \<Rightarrow> (Inl e, w1)
             | (Inr rows, w1) \<Rightarrow>
                 (case decodeRows rt rows of
                    Inl e \<Rightarrow> (Inl e, w1)
                  | Inr result \<Rightarrow>
                      (case (if truthy (projectStage parts)
                             then projectDocs (projectStage parts) result else Inr result) of
                         Inl e \<Rightarrow> (Inl e, w1)
                       | Inr projected \<Rightarrow> (unwindStages pipeline projected, w1)))))"

section \<open>A driver, a runtime and inputs for the examples\<close>

text \<open>
  A driver over a database state that counts the statements run since the last rollback:
  every table exists or none does, every query returns the same rows, and the session is
  number 7. In the example runtime a row carries its decoded document.
\<close>

definition exampleDriver :: "bool \<Rightarrow> jv list \<Rightarrow> (nat, nat) driver" where
  "exampleDriver present rows =
     \<lparr>getDialect = ''mysql'',
      tableExists = (\<lambda>table db. (Inr present, db)),
      query = (\<lambda>sql params db. (Inr rows, Suc db)),
      startSession = (\<lambda>db. (Inr 7, db)),
      commit = (\<lambda>s db. (Inr (), db)),
      rollback = (\<lambda>s db. (Inr (), 0)),
      release = (\<lambda>s db. (Inr (), db))\<rparr>"

definition exampleRuntime :: runtime where
  "exampleRuntime =
     \<lparr>jsonParse = (\<lambda>v. Inr v), jsonStringify = (\<lambda>t. t),
      numberText = (\<lambda>v. case v of JNum n \<Rightarrow> showInt n | _ \<Rightarrow> ''NaN''),
      jsEngine = exampleEngine\<rparr>"

definition failingWork :: "nat \<Rightarrow> nat \<Rightarrow> (error + jv) \<times> nat" where
  "failingWork s db = (Inl (Failure ''work failed''), Suc db)"

definition failingRollback :: "nat \<Rightarrow> nat \<Rightarrow> (error + unit) \<times> nat" where
  "failingRollback s db = (Inl (Failure ''rollback failed''), db)"

definition twoRows :: "jv list" where
  "twoRows = [JObj [(''data'', JObj [(''id'', JNum 1)])], JObj [(''data'', JObj [(''id'', JNum 2)])]]"

definition pageOptions :: "int \<Rightarrow> cursorOptions" where
  "pageOptions n =
     \<lparr>co_cursorField = None, co_cursorValue = JUndefined, co_limit = Some n, co_reverse = None,
      co_count = None, co_sort = None, co_skip = None\<rparr>"

section \<open>Properties of the Predicate Compiler\<close>

lemma parse_succeeds:
  "arrayOperands v \<Longrightarrow> \<exists>r. parseCondition d key v params = Inr r"
  "arrayOperands (JObj ops) \<Longrightarrow> \<exists>r. parseOps d key ops subClauses params = Inr r"
proof (induction d key v params and d key ops subClauses params
        rule: parseCondition_parseOps.induct)
  case (4 d key op operand rest subClauses params)
  from "4.prems" have ao: "arrayOperands operand" and ar: "arrayOperands (JObj rest)"
    and arr: "op = ''$in'' \<or> op = ''$nin'' \<Longrightarrow> isArray operand" by auto
  show ?case
  proof (cases "comparison op")
    case (Some c)
    with 4 ar show ?thesis by simp
  next
    case None
    note cmp = None
    consider "op = ''$in''" | "op \<noteq> ''$in''" "op = ''$nin''"
      | "op \<noteq> ''$in''" "op \<noteq> ''$nin''" "op = ''$not''"
      | "op \<noteq> ''$in''" "op \<noteq> ''$nin''" "op \<noteq> ''$not''" by blast
    then show ?thesis
    proof cases
      case 1
      with "4.IH" cmp ar arr show ?thesis by (cases operand) (simp_all add: isArray_def)
    next
      case 2
      with "4.IH" cmp ar arr show ?thesis by (cases operand) (simp_all add: isArray_def)
    next
      case 3
      from "4.IH" cmp 3 ao obtain c ps where
        pc: "parseCondition d key operand params = Inr (c, ps)" by force
      with "4.IH" cmp 3 ar show ?thesis by simp
    next
      case 4
      with "4.IH" cmp ar show ?thesis by simp
    qed
  qed
qed (auto split: sum.splits)

lemma fieldEntry_succeeds:
  "arrayOperands v \<Longrightarrow> \<exists>r. fieldEntry d key v clauses params = Inr r"
  using parse_succeeds(1)[of v d key params] by (auto simp: fieldEntry_def)

lemma scanFields_succeeds:
  "\<forall>p \<in> set entries. arrayOperands (snd p) \<Longrightarrow> \<exists>r. scanFields d entries clauses params = Inr r"
proof (induction entries arbitrary: clauses params)
  case Nil
  show ?case by simp
next
  case (Cons p entries)
  obtain key v where p: "p = (key, v)" by (cases p)
  from Cons.prems p have "arrayOperands v" by simp
  then obtain cs ps where "fieldEntry d key v clauses params = Inr (cs, ps)"
    using fieldEntry_succeeds[of v d key clauses params] by auto
  moreover from Cons have "\<exists>r. scanFields d entries cs ps = Inr r" by simp
  ultimately show ?case using p by simp
qed

lemma finish_succeeds: "\<exists>r. x = Inr r \<Longrightarrow> \<exists>r. finish x = Inr r"
  by (auto simp: finish_def)

lemma arrayOperands_ownEntries:
  "arrayOperands v \<Longrightarrow> \<forall>p \<in> set (ownEntries v). arrayOperands (snd p)"
  by (cases v) (auto simp: ownEntries_def indexed_def dest!: set_zip_rightD)

lemma flat_succeeds:
  "arrayOperands v \<Longrightarrow> \<exists>r. finish (scanFields d (ownEntries v) [] []) = Inr r"
  by (rule finish_succeeds, rule scanFields_succeeds, rule arrayOperands_ownEntries)

text \<open>
  The unguarded \<^verbatim>\<open>.map\<close> is the only way the compiler fails: a filter whose \<^verbatim>\<open>$in\<close> and
  \<^verbatim>\<open>$nin\<close> operands are all arrays compiles.
\<close>

lemma build_succeeds:
  "arrayOperands f \<Longrightarrow> \<exists>r. buildWhereClause d f = Inr r"
  "arrayOperands (JObj kvs) \<Longrightarrow> \<exists>r. scanFilter d kvs clauses params = Inr r"
  "arrayOperands (JArr conds) \<Longrightarrow> \<exists>r. mapClauses d conds = Inr r"
proof (induction d f and d kvs clauses params and d conds
        rule: buildWhereClause_scanFilter_mapClauses.induct)
  case (4 d key v rest clauses params)
  from "4.prems" have av: "arrayOperands v" and ar: "arrayOperands (JObj rest)" by simp_all
  have ae: "arrayOperands (JArr (elems v))" using av by (cases v) (simp_all add: elems_def)
  obtain cs ps where fe: "fieldEntry d key v clauses params = Inr (cs, ps)"
    using fieldEntry_succeeds[OF av, of d key clauses params] by auto
  consider (a) "key = ''$or'' \<and> isArray v"
    | (b) "\<not> (key = ''$or'' \<and> isArray v)" "key = ''$and'' \<and> isArray v"
    | (c) "\<not> (key = ''$or'' \<and> isArray v)" "\<not> (key = ''$and'' \<and> isArray v)"
          "key = ''$not'' \<and> typeofObject v"
    | (d) "\<not> (key = ''$or'' \<and> isArray v)" "\<not> (key = ''$and'' \<and> isArray v)"
          "\<not> (key = ''$not'' \<and> typeofObject v)"
    by blast
  then show ?case
  proof cases
    case a
    from "4.IH"(1)[OF a ae] obtain ocs where m: "mapClauses d (elems v) = Inr ocs" by auto
    from "4.IH"(2)[OF a m ar] show ?thesis using a m by simp
  next
    case b
    from "4.IH"(3)[OF b ae] obtain acs where m: "mapClauses d (elems v) = Inr acs" by auto
    from "4.IH"(4)[OF b m ar] show ?thesis using b m by auto
  next
    case c
    from "4.IH"(5)[OF c av] obtain cl qs where m: "buildWhereClause d v = Inr (cl, qs)" by force
    from "4.IH"(6)[OF c m refl ar] show ?thesis using c m by auto
  next
    case d
    from "4.IH"(7)[OF d fe refl ar] show ?thesis using d fe by auto
  qed
next
  case (6 d cond conds)
  from "6.prems" have ac: "arrayOperands cond" and ar: "arrayOperands (JArr conds)" by simp_all
  from "6.IH"(1)[OF ac] obtain cl qs where m: "buildWhereClause d cond = Inr (cl, qs)" by force
  from "6.IH"(2)[OF m refl ar] show ?case using m by auto
next
  case (1 d kvs)
  from "1.IH"[OF "1.prems"] have "\<exists>r. finish (scanFilter d kvs [] []) = Inr r"
    by (rule finish_succeeds)
  then show ?case by simp
qed (auto simp only: buildWhereClause.simps scanFilter.simps mapClauses.simps intro: flat_succeeds)

lemma parseOps_skip:
  "\<not> knownOperator op \<Longrightarrow>
     parseOps d key (ops1 @ (op, x) # ops2) subClauses params =
     parseOps d key (ops1 @ ops2) subClauses params"
proof (induction ops1 arbitrary: subClauses params)
  case Nil
  then show ?case by (simp add: knownOperator_def)
next
  case (Cons p ops1)
  obtain k v where p: "p = (k, v)" by (cases p)
  show ?case unfolding p using Cons
    by (simp split: option.splits jv.splits sum.splits prod.splits)
qed

lemma scanFilter_skip:
  "\<not> knownOperator op \<Longrightarrow> key \<noteq> ''$not'' \<Longrightarrow>
     scanFilter d (pre @ (key, JObj (ops1 @ (op, x) # ops2)) # post) clauses params =
     scanFilter d (pre @ (key, JObj (ops1 @ ops2)) # post) clauses params"
proof (induction pre arbitrary: clauses params)
  case Nil
  then show ?case by (simp add: isArray_def fieldEntry_def parseOps_skip)
next
  case (Cons p pre)
  obtain k v where p: "p = (k, v)" by (cases p)
  show ?case unfolding p using Cons
    by (simp split: sum.splits prod.splits)
qed

text \<open>The parameters of nested filters are lost whatever the nested filters are.\<close>

lemma combinator_params_dropped:
  "buildWhereClause d (JObj [(''$or'', JArr conds)]) = Inr (clause, params) \<Longrightarrow> params = []"
  "buildWhereClause d (JObj [(''$and'', JArr conds)]) = Inr (clause, params) \<Longrightarrow> params = []"
  "buildWhereClause d (JObj [(''$not'', JObj kvs)]) = Inr (clause, params) \<Longrightarrow> params = []"
  by (auto simp: isArray_def elems_def finish_def typeofObject_def split: sum.splits prod.splits)

text \<open>
  C1. The claim asks that the parameters of nested filters under \<^verbatim>\<open>$or\<close>, \<^verbatim>\<open>$and\<close> and
  \<^verbatim>\<open>$not\<close> are appended to the outer parameter list. The code keeps the clause of a
  recursive call and drops its parameters: for the filter
  \<^verbatim>\<open>{ $or: [{ a: 1 }, { b: 2 }] }\<close> the clause holds two placeholders and the parameter
  list is empty.
\<close>

theorem buildWhereClause_or_drops_params:
  "buildWhereClause ''mysql''
     (JObj [(''$or'', JArr [JObj [(''a'', JNum 1)], JObj [(''b'', JNum 2)]])])
   = Inr (''((JSON_UNQUOTE(JSON_EXTRACT(data, '' @ [CHR 0x27] @ ''$.a'' @ [CHR 0x27]
            @ '')) = ?) OR (JSON_UNQUOTE(JSON_EXTRACT(data, '' @ [CHR 0x27] @ ''$.b''
            @ [CHR 0x27] @ '')) = ?))'', [])"
  by (simp add: isArray_def elems_def finish_def fieldEntry_def parseKey_def)

text \<open>
  C8. The claim asks that the Predicate Compiler never throws, whatever the filter, and
  that a filter whose operator mapping holds an unrecognized operator compiles. The code
  calls \<^verbatim>\<open>.map\<close> on the operand of \<^verbatim>\<open>$in\<close> and of \<^verbatim>\<open>$nin\<close> without checking that it is an
  array, where the branches of \<^verbatim>\<open>$or\<close> and \<^verbatim>\<open>$and\<close> check with \<^verbatim>\<open>Array.isArray\<close>. So
  \<^verbatim>\<open>{ a: { $in: 5 } }\<close> raises a TypeError, and so do \<^verbatim>\<open>{ a: { $nin: 5 } }\<close> and
  \<^verbatim>\<open>{ a: { $foo: 1, $in: 5 } }\<close>, which holds an unrecognized operator.
\<close>

theorem buildWhereClause_in_scalar_throws:
  "buildWhereClause ''mysql'' (JObj [(''a'', JObj [(''$in'', JNum 5)])]) = Inl TypeError \<and>
   buildWhereClause ''mysql'' (JObj [(''a'', JObj [(''$nin'', JNum 5)])]) = Inl TypeError \<and>
   buildWhereClause ''mysql'' (JObj [(''a'', JObj [(''$foo'', JNum 1), (''$in'', JNum 5)])])
     = Inl TypeError"
  by (simp add: isArray_def fieldEntry_def comparison_def finish_def)

text \<open>
  What the code does with an operator it does not recognize: in the operator mapping of a
  field (a key other than \<^verbatim>\<open>$not\<close>) it passes over it, so that compilation gives exactly
  what it gives with that operator removed: the same clause and parameters, or the same
  failure.
\<close>

lemma buildWhereClause_skips_unknown_operator:
  assumes "\<not> knownOperator op" and "key \<noteq> ''$not''"
  shows "buildWhereClause d (JObj (pre @ (key, JObj (ops1 @ (op, x) # ops2)) # post)) =
         buildWhereClause d (JObj (pre @ (key, JObj (ops1 @ ops2)) # post))"
  using assms by (simp add: scanFilter_skip)

lemma buildWhereClause_skips_unknown_operator_example:
  "buildWhereClause ''postgres''
     (JObj [(''a'', JObj [(''$gt'', JNum 1), (''$foo'', JNum 2), (''$in'', JArr [JNum 3])])]) =
   Inr (''data->>'' @ [CHR 0x27] @ ''a'' @ [CHR 0x27] @ '' > ? AND data->>'' @ [CHR 0x27] @ ''a''
          @ [CHR 0x27] @ '' IN (?)'', [JNum 1, JNum 3])"
  by (simp add: knownOperator_def comparison_def isArray_def fieldEntry_def finish_def
        parseKey_def placeholders_def)

section \<open>Properties of the Update Compiler\<close>

lemmas eval_defs = applyUpdateOperators_def pullStage_def pushStage_def incStage_def setStage_def copyDoc_def
     alloc_def ownProps_def cellAt_def pushStep_def pullStep_def isArrayV_def readProp_def getProp_def arrayPush_def
     setProp_def assignAll_def incValue_def arrayElems_def fieldOf_def arrayLength_def exampleEngine_def
     intEngine_def strictEq_def inheritedProp_def

lemma cellAt_Some_less: "cellAt h a = Some c \<Longrightarrow> a < length h"
  by (simp add: cellAt_def split: if_splits)

lemma cellAt_last [simp]: "cellAt (h @ [c]) (length h) = Some c"
  by (simp add: cellAt_def)

lemma cellAt_append_less [simp]: "a < length h \<Longrightarrow> cellAt (h @ cs) a = cellAt h a"
  by (simp add: cellAt_def nth_append)

lemma cellAt_update_same [simp]: "a < length h \<Longrightarrow> cellAt (h[a := c]) a = Some c"
  by (simp add: cellAt_def)

lemma cellAt_update_other [simp]: "b \<noteq> a \<Longrightarrow> cellAt (h[a := c]) b = cellAt h b"
  by (simp add: cellAt_def)

lemma getProp_update [simp]:
  "getProp eng (AList.update k v ps) k' = (if k' = k then v else getProp eng ps k')"
  by (simp add: getProp_def update_conv')

lemma readProp_obj: "cellAt h a = Some (Obj ps) \<Longrightarrow> readProp eng h a k = getProp eng ps k"
  by (simp add: readProp_def ownProps_def)

lemma setProp_obj: "cellAt h a = Some (Obj ps) \<Longrightarrow> setProp h a k v = h[a := Obj (AList.update k v ps)]"
  by (simp add: setProp_def)

lemma isArrayV_ref: "isArrayV h (VRef b) = (\<exists>xs. cellAt h b = Some (Arr xs))"
  by (auto simp: isArrayV_def split: option.splits cell.splits)

lemma isArrayV_cases:
  "isArrayV h v \<Longrightarrow> \<exists>b xs. v = VRef b \<and> cellAt h b = Some (Arr xs)"
  by (cases v) (auto simp: isArrayV_def split: option.splits cell.splits)

lemma arrayElems_ref: "cellAt h b = Some (Arr xs) \<Longrightarrow> arrayElems h (VRef b) = xs"
  by (simp add: arrayElems_def)

lemma arrayElems_not: "\<not> isArrayV h v \<Longrightarrow> arrayElems h v = []"
  by (cases v) (auto simp: isArrayV_def arrayElems_def split: option.splits cell.splits)

lemma apply_inc_push_stages:
  assumes u: "getSet u = None" "getInc u = Some [(f, d)]" "getPush u = Some [(g, v)]" "getPull u = None"
  shows "applyUpdateOperators eng doc u h =
     (case copyDoc doc h of (n, h1) \<Rightarrow>
        (VRef n, pushStep eng n g v (setProp h1 n f (incValue eng h1 (readProp eng h1 n f) d))))"
  using u by (simp add: applyUpdateOperators_def pullStage_def pushStage_def incStage_def setStage_def
      split: prod.splits)

lemma apply_inc_push_once:
  assumes doc: "cellAt h a = Some (Obj ps)"
    and u: "getSet u = None" "getInc u = Some [(f, d)]" "getPush u = Some [(g, v)]" "getPull u = None"
    and fg: "f \<noteq> g"
  shows "\<exists>r h' ps'. applyUpdateOperators eng (VRef a) u h = (VRef r, h')
           \<and> cellAt h' r = Some (Obj ps')
           \<and> getProp eng ps' f = incValue eng (h @ [Obj ps]) (getProp eng ps f) d
           \<and> isArrayV h' (getProp eng ps' g)
           \<and> length (arrayElems h' (getProp eng ps' g)) = length (arrayElems h (getProp eng ps g)) + 1"
proof -
  let ?n = "length h"
  let ?h1 = "h @ [Obj ps]"
  let ?x = "incValue eng ?h1 (getProp eng ps f) d"
  let ?ps1 = "AList.update f ?x ps"
  let ?h2 = "h @ [Obj ?ps1]"
  from doc have a: "a < ?n" by (rule cellAt_Some_less)
  have copy: "copyDoc (VRef a) h = (?n, ?h1)"
    using doc by (simp add: copyDoc_def alloc_def ownProps_def)
  have rd: "readProp eng ?h1 ?n f = getProp eng ps f" by (simp add: readProp_obj)
  have st: "setProp ?h1 ?n f ?x = ?h2" by (simp add: setProp_obj)
  have app: "applyUpdateOperators eng (VRef a) u h = (VRef ?n, pushStep eng ?n g v ?h2)"
    using apply_inc_push_stages[OF u, of eng "VRef a" h] copy rd st by simp
  have rg: "readProp eng ?h2 ?n g = getProp eng ps g" using fg by (simp add: readProp_obj)
  show ?thesis
  proof (cases "isArrayV h (getProp eng ps g)")
    case True
    then obtain b xs where b: "getProp eng ps g = VRef b" "cellAt h b = Some (Arr xs)"
      by (auto dest: isArrayV_cases)
    from b have bl: "b < ?n" by (auto dest: cellAt_Some_less)
    have arr2: "isArrayV ?h2 (VRef b)" using b bl by (simp add: isArrayV_ref)
    have ps: "pushStep eng ?n g v ?h2 = h[b := Arr (xs @ [v])] @ [Obj ?ps1]"
      using rg b bl arr2 by (simp add: pushStep_def arrayPush_def list_update_append1)
    let ?h' = "h[b := Arr (xs @ [v])] @ [Obj ?ps1]"
    have c1: "cellAt ?h' ?n = Some (Obj ?ps1)"
      using cellAt_last[of "h[b := Arr (xs @ [v])]" "Obj ?ps1"] by simp
    have c2: "cellAt ?h' b = Some (Arr (xs @ [v]))" using bl by simp
    have "getProp eng ?ps1 g = VRef b" using fg b by simp
    moreover have "getProp eng ?ps1 f = ?x" by simp
    moreover have "arrayElems h (getProp eng ps g) = xs" using b by (simp add: arrayElems_ref)
    ultimately show ?thesis using app ps c1 c2
      by (simp add: isArrayV_ref arrayElems_ref)
  next
    case False
    have na: "\<not> isArrayV ?h2 (getProp eng ps g)"
    proof
      assume "isArrayV ?h2 (getProp eng ps g)"
      then obtain b xs where b: "getProp eng ps g = VRef b" "cellAt ?h2 b = Some (Arr xs)"
        by (auto dest: isArrayV_cases)
      from b(2) have "b < Suc ?n" by (auto dest: cellAt_Some_less)
      moreover have "b \<noteq> ?n" using b(2) by auto
      ultimately have "b < ?n" by simp
      with b have "cellAt h b = Some (Arr xs)" by simp
      with b(1) False show False by (simp add: isArrayV_ref)
    qed
    let ?ps2 = "AList.update g (VRef (Suc ?n)) ?ps1"
    let ?h' = "h @ [Obj ?ps2, Arr [v]]"
    have s1: "setProp (?h2 @ [Arr []]) ?n g (VRef (Suc ?n)) = h @ [Obj ?ps2, Arr []]"
      by (simp add: setProp_def cellAt_def nth_append list_update_append)
    have c0: "cellAt (h @ [Obj ?ps2, Arr []]) ?n = Some (Obj ?ps2)"
      by (simp add: cellAt_def nth_append)
    have c0': "cellAt (h @ [Obj ?ps2, Arr []]) (Suc ?n) = Some (Arr [])"
      by (simp add: cellAt_def nth_append)
    have up: "(h @ [Obj ?ps2, Arr []])[Suc ?n := Arr [v]] = ?h'"
      by (simp add: list_update_append)
    have ps: "pushStep eng ?n g v ?h2 = ?h'"
      using rg na s1 c0 c0' up
      by (simp add: pushStep_def alloc_def readProp_obj arrayPush_def)
    have c1: "cellAt ?h' ?n = Some (Obj ?ps2)" by (simp add: cellAt_def nth_append)
    have c2: "cellAt ?h' (Suc ?n) = Some (Arr [v])" by (simp add: cellAt_def nth_append)
    have "getProp eng ?ps2 g = VRef (Suc ?n)" by simp
    moreover have "getProp eng ?ps2 f = ?x" using fg by simp
    moreover have "arrayElems h (getProp eng ps g) = []" using False by (rule arrayElems_not)
    ultimately show ?thesis using app ps c1 c2
      by (simp add: isArrayV_ref arrayElems_ref)
  qed
qed

lemma filter_set_key:
  "distinct (map opKey u) \<Longrightarrow>
   filter (\<lambda>op. opKey op = ''$set'') u = (case getSet u of None \<Rightarrow> [] | Some s \<Rightarrow> [SetOp s])"
proof (induction u)
  case Nil
  show ?case by simp
next
  case (Cons op u)
  have none: "\<And>k. k \<notin> opKey ` set u \<Longrightarrow> filter (\<lambda>op. opKey op = k) u = []"
    by (auto simp: filter_empty_conv)
  show ?case using Cons none[of "''$set''"]
    by (cases op) (auto simp: opKey_def)
qed

lemma filter_inc_key:
  "distinct (map opKey u) \<Longrightarrow>
   filter (\<lambda>op. opKey op = ''$inc'') u = (case getInc u of None \<Rightarrow> [] | Some s \<Rightarrow> [IncOp s])"
proof (induction u)
  case Nil
  show ?case by simp
next
  case (Cons op u)
  have none: "\<And>k. k \<notin> opKey ` set u \<Longrightarrow> filter (\<lambda>op. opKey op = k) u = []"
    by (auto simp: filter_empty_conv)
  show ?case using Cons none[of "''$inc''"]
    by (cases op) (auto simp: opKey_def)
qed

lemma filter_push_key:
  "distinct (map opKey u) \<Longrightarrow>
   filter (\<lambda>op. opKey op = ''$push'') u = (case getPush u of None \<Rightarrow> [] | Some s \<Rightarrow> [PushOp s])"
proof (induction u)
  case Nil
  show ?case by simp
next
  case (Cons op u)
  have none: "\<And>k. k \<notin> opKey ` set u \<Longrightarrow> filter (\<lambda>op. opKey op = k) u = []"
    by (auto simp: filter_empty_conv)
  show ?case using Cons none[of "''$push''"]
    by (cases op) (auto simp: opKey_def)
qed

lemma filter_pull_key:
  "distinct (map opKey u) \<Longrightarrow>
   filter (\<lambda>op. opKey op = ''$pull'') u = (case getPull u of None \<Rightarrow> [] | Some s \<Rightarrow> [PullOp s])"
proof (induction u)
  case Nil
  show ?case by simp
next
  case (Cons op u)
  have none: "\<And>k. k \<notin> opKey ` set u \<Longrightarrow> filter (\<lambda>op. opKey op = k) u = []"
    by (auto simp: filter_empty_conv)
  show ?case using Cons none[of "''$pull''"]
    by (cases op) (auto simp: opKey_def)
qed

lemma apply_fixed_order:
  assumes "distinct (map opKey u)"
  shows "applyUpdateOperators eng doc u h = applyInOrder eng (fixedOrder u) doc h"
proof -
  obtain n h1 where c: "copyDoc doc h = (n, h1)" by (cases "copyDoc doc h")
  obtain n2 h2 where s: "setStage u (n, h1) = (n2, h2)" by (cases "setStage u (n, h1)")
  have s': "foldl (\<lambda>st op. applyEntry eng op st) (n, h1) (filter (\<lambda>op. opKey op = ''$set'') u) = (n2, h2)"
    using s unfolding filter_set_key[OF assms]
    by (cases "getSet u") (simp_all add: setStage_def applyEntry_def)
  obtain h3 where i: "incStage eng u (n2, h2) = (n2, h3)"
    by (cases "getInc u") (simp_all add: incStage_def)
  have i': "foldl (\<lambda>st op. applyEntry eng op st) (n2, h2) (filter (\<lambda>op. opKey op = ''$inc'') u) = (n2, h3)"
    using i unfolding filter_inc_key[OF assms]
    by (cases "getInc u") (simp_all add: incStage_def applyEntry_def)
  obtain h4 where p: "pushStage eng u (n2, h3) = (n2, h4)"
    by (cases "getPush u") (simp_all add: pushStage_def)
  have p': "foldl (\<lambda>st op. applyEntry eng op st) (n2, h3) (filter (\<lambda>op. opKey op = ''$push'') u) = (n2, h4)"
    using p unfolding filter_push_key[OF assms]
    by (cases "getPush u") (simp_all add: pushStage_def applyEntry_def)
  obtain h5 where q: "pullStage eng u (n2, h4) = (n2, h5)"
    by (cases "getPull u") (simp_all add: pullStage_def)
  have q': "foldl (\<lambda>st op. applyEntry eng op st) (n2, h4) (filter (\<lambda>op. opKey op = ''$pull'') u) = (n2, h5)"
    using q unfolding filter_pull_key[OF assms]
    by (cases "getPull u") (simp_all add: pullStage_def applyEntry_def)
  have "applyUpdateOperators eng doc u h = (VRef n2, h5)"
    by (simp add: applyUpdateOperators_def c s i p q)
  moreover have "applyInOrder eng (fixedOrder u) doc h = (VRef n2, h5)"
    by (simp add: applyInOrder_def fixedOrder_def c s' i' p' q' del: foldl_append add: foldl_append)
  ultimately show ?thesis by simp
qed

lemma set_filter_eq:
  "set u1 = set u2 \<Longrightarrow> distinct (map opKey u1) \<Longrightarrow> distinct (map opKey u2) \<Longrightarrow>
   filter (\<lambda>op. opKey op = k) (u1 :: 'n operator list) = filter (\<lambda>op. opKey op = k) u2"
proof -
  assume s: "set u1 = set u2" and d1: "distinct (map opKey u1)" and d2: "distinct (map opKey u2)"
  have one: "length (filter (\<lambda>op. opKey op = k) u) \<le> 1" if "distinct (map opKey u)"
    for u :: "'n operator list"
    using that by (induction u) (auto simp: filter_empty_conv intro: rev_image_eqI)
  have "set (filter (\<lambda>op. opKey op = k) u1) = set (filter (\<lambda>op. opKey op = k) u2)"
    using s by simp
  moreover from one[OF d1] one[OF d2] have
    "length (filter (\<lambda>op. opKey op = k) u1) \<le> 1" "length (filter (\<lambda>op. opKey op = k) u2) \<le> 1" .
  ultimately show ?thesis
    by (cases "filter (\<lambda>op. opKey op = k) u1"; cases "filter (\<lambda>op. opKey op = k) u2") auto
qed

lemma fixedOrder_perm:
  assumes "set u1 = set u2" "distinct (map opKey u1)" "distinct (map opKey u2)"
  shows "fixedOrder u1 = fixedOrder u2"
proof -
  have "\<And>k. filter (\<lambda>op. opKey op = k) u1 = filter (\<lambda>op. opKey op = k) u2"
    using assms by (rule set_filter_eq)
  then show ?thesis unfolding fixedOrder_def by (simp only:)
qed

text \<open>
  C5. Whatever the order of the operator keys in the update specification (a JavaScript
  object, so each key occurs once), \<^verbatim>\<open>applyUpdateOperators\<close> gives what applying its
  entries one after the other gives when they are taken in the order replacement,
  increment, append, removal; so two specifications with the same entries give equal
  results.
\<close>

theorem applyUpdateOperators_fixed_order:
  "(distinct (map opKey u) \<longrightarrow>
      applyUpdateOperators eng doc u h = applyInOrder eng (fixedOrder u) doc h) \<and>
   (distinct (map opKey u1) \<and> distinct (map opKey u2) \<and> set u1 = set u2 \<longrightarrow>
      applyUpdateOperators eng doc u1 h = applyUpdateOperators eng doc u2 h)"
proof (intro conjI impI)
  assume "distinct (map opKey u)"
  then show "applyUpdateOperators eng doc u h = applyInOrder eng (fixedOrder u) doc h"
    by (rule apply_fixed_order)
next
  assume a: "distinct (map opKey u1) \<and> distinct (map opKey u2) \<and> set u1 = set u2"
  then have "fixedOrder u1 = fixedOrder u2" by (intro fixedOrder_perm) simp_all
  moreover from a have "applyUpdateOperators eng doc u1 h = applyInOrder eng (fixedOrder u1) doc h"
    by (intro apply_fixed_order) simp
  moreover from a have "applyUpdateOperators eng doc u2 h = applyInOrder eng (fixedOrder u2) doc h"
    by (intro apply_fixed_order) simp
  ultimately show "applyUpdateOperators eng doc u1 h = applyUpdateOperators eng doc u2 h"
    by simp
qed

text \<open>
  An instance of C5: the keys in the order \<^verbatim>\<open>$pull, $push, $inc, $set\<close> and in the reverse
  order. The field \<^verbatim>\<open>n\<close> is first set to 1 and then incremented by 2; \<^verbatim>\<open>x\<close> is appended
  to \<^verbatim>\<open>t\<close> before \<^verbatim>\<open>y\<close> is removed from it.
\<close>

theorem applyUpdateOperators_fixed_order_witness:
  "distinct (map opKey [PullOp [(''t'', VStr ''y'')], PushOp [(''t'', VStr ''x'')], IncOp [(''n'', 2::int)], SetOp [(''n'', VNum 1)]]) \<and>
   distinct (map opKey [SetOp [(''n'', VNum 1)], IncOp [(''n'', 2::int)], PushOp [(''t'', VStr ''x'')], PullOp [(''t'', VStr ''y'')]]) \<and>
   set [PullOp [(''t'', VStr ''y'')], PushOp [(''t'', VStr ''x'')], IncOp [(''n'', 2::int)], SetOp [(''n'', VNum 1)]] =
   set [SetOp [(''n'', VNum 1)], IncOp [(''n'', 2::int)], PushOp [(''t'', VStr ''x'')], PullOp [(''t'', VStr ''y'')]] \<and>
   applyUpdateOperators exampleEngine (VRef 1)
     [PullOp [(''t'', VStr ''y'')], PushOp [(''t'', VStr ''x'')], IncOp [(''n'', 2)], SetOp [(''n'', VNum 1)]]
     [Arr [VStr ''y''], Obj [(''n'', VNum 0), (''t'', VRef 0)]] =
   applyUpdateOperators exampleEngine (VRef 1)
     [SetOp [(''n'', VNum 1)], IncOp [(''n'', 2)], PushOp [(''t'', VStr ''x'')], PullOp [(''t'', VStr ''y'')]]
     [Arr [VStr ''y''], Obj [(''n'', VNum 0), (''t'', VRef 0)]] \<and>
   applyUpdateOperators exampleEngine (VRef 1)
     [SetOp [(''n'', VNum 1)], IncOp [(''n'', 2)], PushOp [(''t'', VStr ''x'')], PullOp [(''t'', VStr ''y'')]]
     [Arr [VStr ''y''], Obj [(''n'', VNum 0), (''t'', VRef 0)]] =
   (VRef 3, [Arr [VStr ''y'', VStr ''x''], Obj [(''n'', VNum 0), (''t'', VRef 0)],
             Obj [(''n'', VNum 0), (''t'', VRef 0)], Obj [(''n'', VNum 3), (''t'', VRef 4)],
             Arr [VStr ''x'']])"
proof -
  let ?u1 = "[PullOp [(''t'', VStr ''y'')], PushOp [(''t'', VStr ''x'')], IncOp [(''n'', 2)], SetOp [(''n'', VNum 1)]]
               :: int updateFilter"
  let ?u2 = "[SetOp [(''n'', VNum 1)], IncOp [(''n'', 2)], PushOp [(''t'', VStr ''x'')], PullOp [(''t'', VStr ''y'')]]
               :: int updateFilter"
  let ?h = "[Arr [VStr ''y''], Obj [(''n'', VNum 0), (''t'', VRef 0)]] :: int heap"
  have d1: "distinct (map opKey ?u1)" by (simp add: opKey_def)
  have d2: "distinct (map opKey ?u2)" by (simp add: opKey_def)
  have s: "set ?u1 = set ?u2" by auto
  from applyUpdateOperators_fixed_order[of ?u1 exampleEngine "VRef 1" ?h ?u1 ?u2] d1 d2 s
  have eq: "applyUpdateOperators exampleEngine (VRef 1) ?u1 ?h = applyUpdateOperators exampleEngine (VRef 1) ?u2 ?h"
    by blast
  have val: "applyUpdateOperators exampleEngine (VRef 1) ?u2 ?h =
    (VRef 3, [Arr [VStr ''y'', VStr ''x''], Obj [(''n'', VNum 0), (''t'', VRef 0)],
             Obj [(''n'', VNum 0), (''t'', VRef 0)], Obj [(''n'', VNum 3), (''t'', VRef 4)],
             Arr [VStr ''x'']])"
    by (simp add: eval_defs)
  from d1 d2 s eq val show ?thesis by blast
qed

lemma getSet_None: "(\<And>s. SetOp s \<notin> set u) \<Longrightarrow> getSet u = None"
proof (induction u)
  case Nil
  show ?case by simp
next
  case (Cons op u)
  from Cons.prems have "\<And>s. SetOp s \<notin> set u" by auto
  with Cons.IH have "getSet u = None" by blast
  moreover from Cons.prems have "\<And>s. op \<noteq> SetOp s" by auto
  ultimately show ?case by (cases op) auto
qed

lemma getPull_None: "(\<And>s. PullOp s \<notin> set u) \<Longrightarrow> getPull u = None"
proof (induction u)
  case Nil
  show ?case by simp
next
  case (Cons op u)
  from Cons.prems have "\<And>s. PullOp s \<notin> set u" by auto
  with Cons.IH have "getPull u = None" by blast
  moreover from Cons.prems have "\<And>s. op \<noteq> PullOp s" by auto
  ultimately show ?case by (cases op) auto
qed

lemma getInc_only:
  "IncOp i \<in> set u \<Longrightarrow> (\<And>j. IncOp j \<in> set u \<Longrightarrow> j = i) \<Longrightarrow> getInc u = Some i"
proof (induction u)
  case Nil
  then show ?case by simp
next
  case (Cons op u)
  show ?case
  proof (cases "\<exists>j. op = IncOp j")
    case True
    then obtain j where j: "op = IncOp j" by blast
    with Cons.prems(2)[of j] show ?thesis by simp
  next
    case False
    with Cons.prems(1) have "IncOp i \<in> set u" by auto
    moreover have "\<And>j. IncOp j \<in> set u \<Longrightarrow> j = i" using Cons.prems(2) by simp
    ultimately have "getInc u = Some i" by (rule Cons.IH)
    with False show ?thesis by (cases op) simp_all
  qed
qed

lemma getPush_only:
  "PushOp i \<in> set u \<Longrightarrow> (\<And>j. PushOp j \<in> set u \<Longrightarrow> j = i) \<Longrightarrow> getPush u = Some i"
proof (induction u)
  case Nil
  then show ?case by simp
next
  case (Cons op u)
  show ?case
  proof (cases "\<exists>j. op = PushOp j")
    case True
    then obtain j where j: "op = PushOp j" by blast
    with Cons.prems(2)[of j] show ?thesis by simp
  next
    case False
    with Cons.prems(1) have "PushOp i \<in> set u" by auto
    moreover have "\<And>j. PushOp j \<in> set u \<Longrightarrow> j = i" using Cons.prems(2) by simp
    ultimately have "getPush u = Some i" by (rule Cons.IH)
    with False show ?thesis by (cases op) simp_all
  qed
qed


lemma fieldOf_obj: "cellAt h a = Some (Obj ps) \<Longrightarrow> fieldOf eng h (VRef a) k = getProp eng ps k"
  by (simp add: fieldOf_def ownProps_def)

lemma incValue_number:
  "addsAsNumber x \<Longrightarrow> incValue eng h x d = VNum (numAdd eng (startNumber eng x) d)"
  by (cases x) (simp_all add: addsAsNumber_def incValue_def startNumber_def orZero_def)

lemma incValue_again:
  "incValue eng h (VNum m) d = VNum (numAdd eng (orZero eng m) d)"
  by (simp add: incValue_def orZero_def)

text \<open>
  C6, amended. The update specification holds an increment of \<open>f\<close> by \<open>d\<close> and an append of
  \<open>v\<close> to another field \<open>g\<close>, neither field being \<^verbatim>\<open>__proto__\<close> (assigning that key replaces
  the prototype, see \<open>setProp\<close>), and the value the starting document has at \<open>f\<close> (its own
  or an inherited one) is absent or anything but a non-empty string, an array or an
  object; \<open>s\<close> is the number that value counts as (0 for a falsy one, 1 for \<^verbatim>\<open>true\<close>). Then:

    \<^item> after one application the incremented field is the number \<open>s + d\<close>, and after two it
      is \<open>((s + d) || 0) + d\<close>, both sums being those of the runtime's arithmetic;
    \<^item> whenever these two additions are exact (\<open>exactTwice\<close>: under a reading \<open>rd\<close> of the
      runtime's numbers as reals), the incremented field is the starting number plus twice
      the operand;
    \<^item> the appended field is an array with one element more than at the start after one
      application and two more after two (counting from none when the field was not an
      array), so the second application changes the document again.
\<close>

theorem applyUpdateOperators_twice:
  assumes doc: "cellAt h a = Some (Obj ps)"
    and u: "set u = {IncOp [(f, d)], PushOp [(g, v)]}"
    and fg: "f \<noteq> g"
    and proto: "f \<noteq> ''__proto__''" "g \<noteq> ''__proto__''"
    and num: "addsAsNumber (fieldOf eng h (VRef a) f)"
    and s: "s = startNumber eng (fieldOf eng h (VRef a) f)"
  shows "case applyUpdateOperators eng (VRef a) u h of (r1, h1) \<Rightarrow>
           (case applyUpdateOperators eng r1 u h1 of (r2, h2) \<Rightarrow>
              fieldOf eng h1 r1 f = VNum (numAdd eng s d) \<and>
              fieldOf eng h2 r2 f = VNum (numAdd eng (orZero eng (numAdd eng s d)) d) \<and>
              (exactTwice eng rd s d \<longrightarrow>
                 numberValue rd (fieldOf eng h2 r2 f) = Some (rd s + 2 * rd d)) \<and>
              isArrayV h2 (fieldOf eng h2 r2 g) \<and>
              arrayLength h1 (fieldOf eng h1 r1 g) = arrayLength h (fieldOf eng h (VRef a) g) + 1 \<and>
              arrayLength h2 (fieldOf eng h2 r2 g) = arrayLength h (fieldOf eng h (VRef a) g) + 2)"
proof -
  have us: "getSet u = None" "getInc u = Some [(f, d)]" "getPush u = Some [(g, v)]" "getPull u = None"
  proof -
    show "getSet u = None" by (rule getSet_None) (simp add: u)
    show "getPull u = None" by (rule getPull_None) (simp add: u)
    show "getInc u = Some [(f, d)]" by (rule getInc_only) (simp_all add: u)
    show "getPush u = Some [(g, v)]" by (rule getPush_only) (simp_all add: u)
  qed
  have sf: "fieldOf eng h (VRef a) f = getProp eng ps f" using doc by (rule fieldOf_obj)
  have sg: "fieldOf eng h (VRef a) g = getProp eng ps g" using doc by (rule fieldOf_obj)
  from apply_inc_push_once[OF doc us fg, of eng] obtain r1 h1 ps1 where
    a1: "applyUpdateOperators eng (VRef a) u h = (VRef r1, h1)"
    and c1: "cellAt h1 r1 = Some (Obj ps1)"
    and f1: "getProp eng ps1 f = incValue eng (h @ [Obj ps]) (getProp eng ps f) d"
    and g1: "isArrayV h1 (getProp eng ps1 g)"
    and l1: "length (arrayElems h1 (getProp eng ps1 g)) = length (arrayElems h (getProp eng ps g)) + 1"
    by blast
  from apply_inc_push_once[OF c1 us fg, of eng] obtain r2 h2 ps2 where
    a2: "applyUpdateOperators eng (VRef r1) u h1 = (VRef r2, h2)"
    and c2: "cellAt h2 r2 = Some (Obj ps2)"
    and f2: "getProp eng ps2 f = incValue eng (h1 @ [Obj ps1]) (getProp eng ps1 f) d"
    and g2: "isArrayV h2 (getProp eng ps2 g)"
    and l2: "length (arrayElems h2 (getProp eng ps2 g)) = length (arrayElems h1 (getProp eng ps1 g)) + 1"
    by blast
  let ?m = "numAdd eng s d"
  let ?r = "numAdd eng (orZero eng ?m) d"
  have n1: "getProp eng ps1 f = VNum ?m"
    using f1 num s sf by (simp add: incValue_number)
  have n2: "getProp eng ps2 f = VNum ?r"
    using f2 n1 by (simp add: incValue_again)
  have "fieldOf eng h1 (VRef r1) f = VNum ?m"
    using c1 n1 by (simp add: fieldOf_obj)
  moreover have r2: "fieldOf eng h2 (VRef r2) f = VNum ?r"
    using c2 n2 by (simp add: fieldOf_obj)
  moreover have "exactTwice eng rd s d \<longrightarrow>
      numberValue rd (fieldOf eng h2 (VRef r2) f) = Some (rd s + 2 * rd d)"
    using r2 by (simp add: exactTwice_def numberValue_def Let_def)
  moreover have "isArrayV h2 (fieldOf eng h2 (VRef r2) g)" using c2 g2 by (simp add: fieldOf_obj)
  moreover have "arrayLength h1 (fieldOf eng h1 (VRef r1) g) = arrayLength h (fieldOf eng h (VRef a) g) + 1"
    using c1 l1 sg by (simp add: fieldOf_obj arrayLength_def)
  moreover have "arrayLength h2 (fieldOf eng h2 (VRef r2) g) = arrayLength h (fieldOf eng h (VRef a) g) + 2"
    using c1 c2 l1 l2 sg by (simp add: fieldOf_obj arrayLength_def)
  ultimately show ?thesis by (simp only: a1 a2 prod.case)
qed

text \<open>An instance of C6: \<^verbatim>\<open>{ age: 30, roles: ["admin"] }\<close> under
  \<^verbatim>\<open>{ $push: { roles: "editor" }, $inc: { age: 1 } }\<close>, where 30 + 1 and 31 + 1 are exact.\<close>

theorem applyUpdateOperators_twice_witness:
  "cellAt [Arr [VStr ''admin''], Obj [(''age'', VNum (30::int)), (''roles'', VRef 0)]] 1
     = Some (Obj [(''age'', VNum 30), (''roles'', VRef 0)]) \<and>
   set [PushOp [(''roles'', VStr ''editor'')], IncOp [(''age'', 1::int)]]
     = {IncOp [(''age'', 1)], PushOp [(''roles'', VStr ''editor'')]} \<and>
   ''age'' \<noteq> ''roles'' \<and> ''age'' \<noteq> ''__proto__'' \<and> ''roles'' \<noteq> ''__proto__'' \<and>
   addsAsNumber (fieldOf exampleEngine
     [Arr [VStr ''admin''], Obj [(''age'', VNum 30), (''roles'', VRef 0)]] (VRef 1) ''age'') \<and>
   30 = startNumber exampleEngine (fieldOf exampleEngine
     [Arr [VStr ''admin''], Obj [(''age'', VNum 30), (''roles'', VRef 0)]] (VRef 1) ''age'') \<and>
   exactTwice exampleEngine real_of_int 30 1 \<and>
   (case applyUpdateOperators exampleEngine (VRef 1) [PushOp [(''roles'', VStr ''editor'')], IncOp [(''age'', 1)]]
           [Arr [VStr ''admin''], Obj [(''age'', VNum 30), (''roles'', VRef 0)]] of
      (r1, h1) \<Rightarrow>
        (case applyUpdateOperators exampleEngine r1 [PushOp [(''roles'', VStr ''editor'')], IncOp [(''age'', 1)]] h1 of
           (r2, h2) \<Rightarrow>
             fieldOf exampleEngine h1 r1 ''age'' = VNum 31 \<and>
             fieldOf exampleEngine h2 r2 ''age'' = VNum 32 \<and>
             numberValue real_of_int (fieldOf exampleEngine h2 r2 ''age'') = Some 32 \<and>
             arrayLength h1 (fieldOf exampleEngine h1 r1 ''roles'') = 2 \<and>
             arrayLength h2 (fieldOf exampleEngine h2 r2 ''roles'') = 3))"
proof -
  let ?h = "[Arr [VStr ''admin''], Obj [(''age'', VNum 30), (''roles'', VRef 0)]] :: int heap"
  let ?u = "[PushOp [(''roles'', VStr ''editor'')], IncOp [(''age'', 1)]] :: int updateFilter"
  have doc: "cellAt ?h 1 = Some (Obj [(''age'', VNum 30), (''roles'', VRef 0)])"
    by (simp add: cellAt_def)
  have u: "set ?u = {IncOp [(''age'', 1)], PushOp [(''roles'', VStr ''editor'')]}"
    by (simp add: insert_commute)
  have ks: "''age'' \<noteq> ''roles''" "''age'' \<noteq> ''__proto__''" "''roles'' \<noteq> ''__proto__''"
    by simp_all
  have fa: "fieldOf exampleEngine ?h (VRef 1) ''age'' = VNum 30"
    by (simp add: fieldOf_def ownProps_def cellAt_def getProp_def)
  have fr: "fieldOf exampleEngine ?h (VRef 1) ''roles'' = VRef 0"
    by (simp add: fieldOf_def ownProps_def cellAt_def getProp_def)
  have num: "addsAsNumber (fieldOf exampleEngine ?h (VRef 1) ''age'')"
    using fa by (simp add: addsAsNumber_def)
  have s: "(30::int) = startNumber exampleEngine (fieldOf exampleEngine ?h (VRef 1) ''age'')"
    using fa by (simp add: startNumber_def orZero_def exampleEngine_def intEngine_def)
  have ex: "exactTwice exampleEngine real_of_int 30 1"
    by (simp add: exactTwice_def orZero_def exampleEngine_def intEngine_def Let_def)
  have len: "arrayLength ?h (fieldOf exampleEngine ?h (VRef 1) ''roles'') = 1"
    using fr by (simp add: arrayLength_def arrayElems_def cellAt_def)
  have a31: "numAdd exampleEngine 30 1 = 31" by (simp add: exampleEngine_def intEngine_def)
  have a32: "numAdd exampleEngine (orZero exampleEngine 31) 1 = 32"
    by (simp add: orZero_def exampleEngine_def intEngine_def)
  obtain r1 h1 where p1: "applyUpdateOperators exampleEngine (VRef 1) ?u ?h = (r1, h1)"
    by (cases "applyUpdateOperators exampleEngine (VRef 1) ?u ?h")
  obtain r2 h2 where p2: "applyUpdateOperators exampleEngine r1 ?u h1 = (r2, h2)"
    by (cases "applyUpdateOperators exampleEngine r1 ?u h1")
  from applyUpdateOperators_twice [OF doc u ks num s, where rd = real_of_int] ex
  have "fieldOf exampleEngine h1 r1 ''age'' = VNum 31 \<and>
        fieldOf exampleEngine h2 r2 ''age'' = VNum 32 \<and>
        numberValue real_of_int (fieldOf exampleEngine h2 r2 ''age'') = Some 32 \<and>
        arrayLength h1 (fieldOf exampleEngine h1 r1 ''roles'') = 2 \<and>
        arrayLength h2 (fieldOf exampleEngine h2 r2 ''roles'') = 3"
    unfolding p1 p2 prod.case len a31 a32 by (simp add: numberValue_def)
  then have "(case applyUpdateOperators exampleEngine (VRef 1) ?u ?h of
      (r1, h1) \<Rightarrow>
        (case applyUpdateOperators exampleEngine r1 ?u h1 of
           (r2, h2) \<Rightarrow>
             fieldOf exampleEngine h1 r1 ''age'' = VNum 31 \<and>
             fieldOf exampleEngine h2 r2 ''age'' = VNum 32 \<and>
             numberValue real_of_int (fieldOf exampleEngine h2 r2 ''age'') = Some 32 \<and>
             arrayLength h1 (fieldOf exampleEngine h1 r1 ''roles'') = 2 \<and>
             arrayLength h2 (fieldOf exampleEngine h2 r2 ''roles'') = 3))"
    unfolding p1 p2 prod.case .
  with doc u ks num s ex show ?thesis by blast
qed

text \<open>
  C6 as stated, for every starting document: with the string \<^verbatim>\<open>"a"\<close> in the incremented
  field, two increments by 1 give \<^verbatim>\<open>"a11"\<close>, while the starting value plus twice the
  operand is \<^verbatim>\<open>"a2"\<close>.
\<close>

theorem applyUpdateOperators_twice_string_field:
  "(case applyUpdateOperators exampleEngine (VRef 1) [IncOp [(''name'', 1)], PushOp [(''tags'', VStr ''x'')]]
           [Arr [], Obj [(''name'', VStr ''a''), (''tags'', VRef 0)]] of
      (r1, h1) \<Rightarrow>
        (case applyUpdateOperators exampleEngine r1 [IncOp [(''name'', 1)], PushOp [(''tags'', VStr ''x'')]] h1 of
           (r2, h2) \<Rightarrow> fieldOf exampleEngine h2 r2 ''name'')) = VStr ''a11'' \<and>
   incValue exampleEngine [] (VStr ''a'') (2 * 1) = VStr ''a2''"
  by (simp add: eval_defs showInt_def showNat.simps digitChar_def)

text \<open>
  A field the document does not have but every object inherits: \<^verbatim>\<open>updated["toString"]\<close>
  reads the function of \<^verbatim>\<open>Object.prototype\<close> (here the object at address 0), so the
  increment concatenates its text with the operand and stores a string. The value read is
  an object, which the hypothesis of the theorem above excludes.
\<close>

lemma applyUpdateOperators_inherited_field:
  "fieldOf protoEngine [Obj [], Obj [(''n'', VNum 1)]] (VRef 1) ''toString'' = VRef 0 \<and>
   \<not> addsAsNumber (fieldOf protoEngine [Obj [], Obj [(''n'', VNum 1)]] (VRef 1) ''toString'') \<and>
   (case applyUpdateOperators protoEngine (VRef 1) [IncOp [(''toString'', 1)]]
           [Obj [], Obj [(''n'', VNum 1)]] of
      (r1, h1) \<Rightarrow> fieldOf protoEngine h1 r1 ''toString'')
     = VStr ''function toString() { [native code] }1''"
  by (simp add: eval_defs protoEngine_def addsAsNumber_def
        showInt_def showNat.simps digitChar_def)

text \<open>
  An addition that rounds: from \<^verbatim>\<open>2^53\<close> two increments by 1 leave \<^verbatim>\<open>2^53\<close>, as the theorem
  above gives with \<open>numAdd\<close>, and not \<^verbatim>\<open>2^53 + 2\<close>.
\<close>

lemma applyUpdateOperators_rounded_sum:
  "(case applyUpdateOperators roundingEngine (VRef 0)
           [IncOp [(''n'', 1)], PushOp [(''t'', VStr ''x'')]] [Obj [(''n'', VNum 9007199254740992)]] of
      (r1, h1) \<Rightarrow>
        (case applyUpdateOperators roundingEngine r1
                [IncOp [(''n'', 1)], PushOp [(''t'', VStr ''x'')]] h1 of
           (r2, h2) \<Rightarrow> fieldOf roundingEngine h2 r2 ''n'')) = VNum 9007199254740992"
  by (simp add: eval_defs roundingEngine_def)

lemma extends_setProp:
  "extends h (updated, h') \<Longrightarrow> extends h (updated, setProp h' updated k v)"
  by (auto simp: extends_def setProp_def list_update_append split: option.splits cell.splits)

lemma extends_alloc:
  "extends h (updated, h') \<Longrightarrow> extends h (updated, snd (alloc c h'))"
  by (auto simp: extends_def alloc_def)

lemma extends_incLoop:
  "extends h (updated, h') \<Longrightarrow> extends h (updated, incLoop eng updated i h')"
  by (induction eng updated i h' rule: incLoop.induct) (simp_all add: extends_setProp)

lemma extends_pullStep:
  "extends h (updated, h') \<Longrightarrow> extends h (updated, pullStep eng updated k p h')"
  using extends_setProp[OF extends_alloc, of h updated h']
  by (simp add: pullStep_def split: prod.splits) (metis snd_conv)

lemma extends_pullLoop:
  "extends h (updated, h') \<Longrightarrow> extends h (updated, pullLoop eng updated p h')"
  by (induction eng updated p h' rule: pullLoop.induct) (simp_all add: extends_pullStep)

lemma extends_copyDoc: "extends h (copyDoc doc h)"
  by (simp add: extends_def copyDoc_def alloc_def)

lemma extends_setStage: "extends h st \<Longrightarrow> extends h (setStage u st)"
  by (cases st) (auto simp: extends_def setStage_def alloc_def split: option.splits)

lemma extends_incStage: "extends h st \<Longrightarrow> extends h (incStage eng u st)"
  by (cases st) (auto simp: incStage_def extends_incLoop split: option.splits)

lemma extends_pullStage: "extends h st \<Longrightarrow> extends h (pullStage eng u st)"
  by (cases st) (auto simp: pullStage_def extends_pullLoop split: option.splits)

text \<open>
  Without \<^verbatim>\<open>$push\<close> the function only allocates and assigns to its own copy: every cell
  of the heap before the call is unchanged after it.
\<close>

lemma applyUpdateOperators_without_push_frame:
  assumes "getPush u = None"
  shows "\<exists>ext. snd (applyUpdateOperators eng doc u h) = h @ ext"
proof -
  have "pushStage eng u (incStage eng u (setStage u (copyDoc doc h))) = incStage eng u (setStage u (copyDoc doc h))"
    using assms by (simp add: pushStage_def split: prod.splits)
  moreover have "extends h (pullStage eng u (incStage eng u (setStage u (copyDoc doc h))))"
    by (intro extends_pullStage extends_incStage extends_setStage extends_copyDoc)
  ultimately show ?thesis
    by (auto simp: applyUpdateOperators_def extends_def split: prod.splits)
qed

text \<open>
  C2. The claim asks that the input document and the arrays it holds are left unchanged.
  \<^verbatim>\<open>updated\<close> is a shallow copy, so \<^verbatim>\<open>updated[k].push(...)\<close> appends to the array of the
  input document: for \<^verbatim>\<open>{ id: 1, tags: ["a"] }\<close> and \<^verbatim>\<open>{ $push: { tags: "b" } }\<close> the
  array at address 0, held by the input document at address 1, becomes \<^verbatim>\<open>["a", "b"]\<close>.
\<close>

theorem applyUpdateOperators_push_mutates_input:
  "applyUpdateOperators exampleEngine (VRef 1) [PushOp [(''tags'', VStr ''b'')]]
     [Arr [VStr ''a''], Obj [(''id'', VNum 1), (''tags'', VRef 0)]]
   = (VRef 2, [Arr [VStr ''a'', VStr ''b''], Obj [(''id'', VNum 1), (''tags'', VRef 0)],
        Obj [(''id'', VNum 1), (''tags'', VRef 0)]])"
  by (simp add: eval_defs)

section \<open>Properties of the unwind stage\<close>

lemma pushElements_append:
  "pushElements doc path vals unwound =
     unwound @ map (\<lambda>x. JObj (AList.update path x (ownEntries doc))) vals"
  by (induction vals arbitrary: unwound) simp_all

lemma getField_obj: "getField (JObj kvs) k = Inr (lookupProp kvs k)"
  by (simp add: getField_def propertyOf_def)

lemma unwindDocs_objects:
  "unwindDocs path (map JObj docs) unwound =
     Inr (unwound @ concat (map (unwindDocument path) docs))"
proof (induction docs arbitrary: unwound)
  case Nil
  show ?case by simp
next
  case (Cons doc docs)
  show ?case
  proof (cases "map_of doc path")
    case None
    then show ?thesis
      by (simp add: getField_obj lookupProp_def isArray_def unwindDocument_def Cons.IH)
  next
    case (Some v)
    then show ?thesis
      by (cases v)
        (simp_all add: getField_obj lookupProp_def isArray_def elems_def unwindDocument_def
           Cons.IH pushElements_append ownEntries_def)
  qed
qed

text \<open>
  C7. For a stage whose \<^verbatim>\<open>$unwind\<close> is a non-empty string and a decoded result sequence of
  documents, the unwind loops compute the flat-map of \<open>unwindDocument\<close> over the sequence,
  at the path with one leading dollar sign removed: a document whose value at the path is
  a sequence gives one document per element, in element order, an other document is passed
  through unchanged. In an emitted document the field at the path reads the element and
  every other field reads as before.
\<close>

theorem unwindStage_flat_map:
  "(getField stage ''$unwind'' = Inr (JStr s) \<and> s \<noteq> [] \<longrightarrow>
      unwindStage stage (map JObj docs) =
        Inr (concat (map (unwindDocument (stripDollar s)) docs))) \<and>
   lookupProp (AList.update path x doc) k = (if k = path then x else lookupProp doc k)"
  by (simp add: unwindStage_def truthy_def unwindDocs_objects lookupProp_def update_conv')

text \<open>An instance of C7: unwind on \<^verbatim>\<open>roles\<close> for a document with two roles, a document
  whose \<^verbatim>\<open>roles\<close> is not a sequence and a document without the field.\<close>

theorem unwindStage_flat_map_witness:
  "getField (JObj [(''$unwind'', JStr ''$roles'')]) ''$unwind'' = Inr (JStr ''$roles'') \<and>
   ''$roles'' \<noteq> [] \<and>
   unwindStage (JObj [(''$unwind'', JStr ''$roles'')])
     (map JObj [[(''id'', JNum 1), (''roles'', JArr [JStr ''a'', JStr ''b''])],
                [(''id'', JNum 2), (''roles'', JStr ''c'')],
                [(''id'', JNum 3)]]) =
   Inr [JObj [(''id'', JNum 1), (''roles'', JStr ''a'')],
        JObj [(''id'', JNum 1), (''roles'', JStr ''b'')],
        JObj [(''id'', JNum 2), (''roles'', JStr ''c'')],
        JObj [(''id'', JNum 3)]]"
  using unwindStage_flat_map
    [of "JObj [(''$unwind'', JStr ''$roles'')]" "''$roles''"
        "[[(''id'', JNum 1), (''roles'', JArr [JStr ''a'', JStr ''b''])],
          [(''id'', JNum 2), (''roles'', JStr ''c'')],
          [(''id'', JNum 3)]]"]
  by (simp add: getField_def propertyOf_def lookupProp_def stripDollar_def unwindDocument_def)

lemma parseStage_unwind_only:
  "parseStage d rt (JObj [(''$unwind'', u)]) parts = Inr parts"
  by (simp add: parseStage_def matchPart_def sortPart_def groupPart_def projectPart_def
        limitPart_def skipPart_def propertyOf_def lookupProp_def truthy_def)

text \<open>
  The same at the level of \<^verbatim>\<open>aggregate\<close>: a pipeline that consists of one unwind stage runs
  the plain statement and returns the flat-map of the decoded rows.
\<close>

lemma aggregate_unwind_stage:
  assumes q: "query drv (plainSql collection noParts) [] (fst w) = (Inr rows, db1)"
    and dec: "decodeRows rt rows = Inr (map JObj docs)"
    and s: "s \<noteq> []"
  shows "aggregate drv rt collection [JObj [(''$unwind'', JStr s)]] w =
           (Inr (concat (map (unwindDocument (stripDollar s)) docs)),
            (db1, snd w @ [Query (plainSql collection noParts) []]))"
  using q dec s
  by (simp add: aggregate_def parseStage_unwind_only noParts_def[symmetric] callQuery_def)
    (simp add: noParts_def truthy_def unwindStage_def getField_def propertyOf_def lookupProp_def
       unwindDocs_objects)

section \<open>Decoded documents in the heap\<close>

text \<open>
  A tree placed in the heap reads back as the same tree, whatever the heap held before:
  the depth \<open>length h + 1\<close> of \<open>readBack\<close> suffices for every value that \<open>load\<close> builds.
\<close>

lemma load_extends:
  "\<exists>ext. snd (load t h) = h @ ext"
  "\<exists>ext. snd (loadList ts h) = h @ ext"
  "\<exists>ext. snd (loadProps kvs h) = h @ ext"
proof (induction t h and ts h and kvs h rule: load_loadList_loadProps.induct)
  case (6 xs h)
  then show ?case by (auto simp: alloc_def split: prod.splits)
next
  case (7 kvs h)
  then show ?case by (auto simp: alloc_def split: prod.splits)
next
  case (9 x xs h)
  obtain v h1 where l: "load x h = (v, h1)" by (cases "load x h")
  obtain vs h2 where ll: "loadList xs h1 = (vs, h2)" by (cases "loadList xs h1")
  from 9(1) l obtain e1 where "h1 = h @ e1" by auto
  moreover from 9(2)[OF l[symmetric]] ll obtain e2 where "h2 = h1 @ e2" by auto
  ultimately show ?case using l ll by simp
next
  case (11 k x kvs h)
  obtain v h1 where l: "load x h = (v, h1)" by (cases "load x h")
  obtain ps h2 where ll: "loadProps kvs h1 = (ps, h2)" by (cases "loadProps kvs h1")
  from 11(1) l obtain e1 where "h1 = h @ e1" by auto
  moreover from 11(2)[OF l[symmetric]] ll obtain e2 where "h2 = h1 @ e2" by auto
  ultimately show ?case using l ll by simp
qed simp_all

lemma those_map_Some:
  "(\<And>x. x \<in> set xs \<Longrightarrow> f x = Some (g x)) \<Longrightarrow> those (map f xs) = Some (map g xs)"
  by (induction xs) simp_all

lemma those_map_SomeD:
  "those (map f xs) = Some ys \<Longrightarrow> length ys = length xs \<and> (\<forall>i < length xs. f (xs ! i) = Some (ys ! i))"
proof (induction xs arbitrary: ys)
  case Nil
  then show ?case by simp
next
  case (Cons x xs)
  then obtain y ys' where y: "f x = Some y" "those (map f xs) = Some ys'" "ys = y # ys'"
    by (auto split: option.splits)
  with Cons.IH[OF y(2)] show ?case by (auto simp: nth_Cons split: nat.splits)
qed

lemma those_map_cong_Some:
  assumes "those (map f xs) = Some ys"
    and "\<And>x y. x \<in> set xs \<Longrightarrow> f x = Some y \<Longrightarrow> g x = Some y"
  shows "those (map g xs) = Some ys"
  using assms
proof (induction xs arbitrary: ys)
  case Nil
  then show ?case by simp
next
  case (Cons x xs)
  then obtain y ys' where y: "f x = Some y" "those (map f xs) = Some ys'" "ys = y # ys'"
    by (auto split: option.splits)
  from Cons.prems(2)[of x y] y have "g x = Some y" by simp
  moreover from Cons.IH[OF y(2)] Cons.prems(2) have "those (map g xs) = Some ys'" by simp
  ultimately show ?case using y by simp
qed

lemma snapshot_heap_mono:
  "snapshot n h v = Some t \<Longrightarrow> snapshot n (h @ ext) v = Some t"
proof (induction n h v arbitrary: t rule: snapshot.induct)
  case (7 n h a)
  from "7.prems" obtain c where c: "cellAt h a = Some c" by (auto split: option.splits)
  then have al: "a < length h" by (simp add: cellAt_def split: if_splits)
  then have c': "cellAt (h @ ext) a = Some c" using c by (simp add: cellAt_def nth_append)
  show ?case
  proof (cases c)
    case (Arr xs)
    with "7.prems" c obtain ys where ys: "those (map (snapshot n h) xs) = Some ys" "t = JArr ys"
      by auto
    have "those (map (snapshot n (h @ ext)) xs) = Some ys"
      using ys(1) "7.IH"(1)[OF c Arr] by (rule those_map_cong_Some)
    then show ?thesis using c' Arr ys by simp
  next
    case (Obj ps)
    with "7.prems" c obtain qs where
      qs: "those (map (\<lambda>kv. map_option (Pair (fst kv)) (snapshot n h (snd kv))) ps) = Some qs" "t = JObj qs"
      by auto
    have "those (map (\<lambda>kv. map_option (Pair (fst kv)) (snapshot n (h @ ext) (snd kv))) ps) = Some qs"
      using qs(1)
    proof (rule those_map_cong_Some)
      fix kv y assume kv: "kv \<in> set ps" and "map_option (Pair (fst kv)) (snapshot n h (snd kv)) = Some y"
      then obtain z where "snapshot n h (snd kv) = Some z" "y = (fst kv, z)" by auto
      with "7.IH"(2)[OF c Obj kv] show "map_option (Pair (fst kv)) (snapshot n (h @ ext) (snd kv)) = Some y"
        by simp
    qed
    then show ?thesis using c' Obj qs by simp
  qed
qed simp_all


lemma snapshot_fuel_mono:
  "snapshot n h v = Some t \<Longrightarrow> n \<le> m \<Longrightarrow> snapshot m h v = Some t"
proof (induction n h v arbitrary: t m rule: snapshot.induct)
  case (7 n h a)
  from "7.prems"(2) obtain m' where m: "m = Suc m'" "n \<le> m'" by (cases m) auto
  from "7.prems" obtain c where c: "cellAt h a = Some c" by (auto split: option.splits)
  show ?case
  proof (cases c)
    case (Arr xs)
    with "7.prems" c obtain ys where ys: "those (map (snapshot n h) xs) = Some ys" "t = JArr ys"
      by auto
    have "those (map (snapshot m' h) xs) = Some ys"
      using ys(1) "7.IH"(1)[OF c Arr _ _ m(2)] by (rule those_map_cong_Some)
    then show ?thesis using c Arr ys m by simp
  next
    case (Obj ps)
    with "7.prems" c obtain qs where
      qs: "those (map (\<lambda>kv. map_option (Pair (fst kv)) (snapshot n h (snd kv))) ps) = Some qs" "t = JObj qs"
      by auto
    have "those (map (\<lambda>kv. map_option (Pair (fst kv)) (snapshot m' h (snd kv))) ps) = Some qs"
      using qs(1)
    proof (rule those_map_cong_Some)
      fix kv y assume kv: "kv \<in> set ps" and "map_option (Pair (fst kv)) (snapshot n h (snd kv)) = Some y"
      then obtain z where "snapshot n h (snd kv) = Some z" "y = (fst kv, z)" by auto
      with "7.IH"(2)[OF c Obj kv _ m(2)] show "map_option (Pair (fst kv)) (snapshot m' h (snd kv)) = Some y"
        by simp
    qed
    then show ?thesis using c Obj qs m by simp
  qed
qed simp_all

lemma load_length:
  "length h \<le> length (snd (load t h))"
  "length h \<le> length (snd (loadList ts h))"
  "length h \<le> length (snd (loadProps kvs h))"
  using load_extends(1)[of t h] load_extends(2)[of ts h] load_extends(3)[of kvs h] by auto

lemma load_snapshot:
  "load t h = (v, h') \<Longrightarrow> snapshot (Suc (length h' - length h)) h' v = Some t"
  "loadList ts h = (vs, h') \<Longrightarrow> those (map (snapshot (Suc (length h' - length h)) h') vs) = Some ts"
  "loadProps kvs h = (ps, h') \<Longrightarrow>
     those (map (\<lambda>kv. map_option (Pair (fst kv)) (snapshot (Suc (length h' - length h)) h' (snd kv))) ps)
       = Some kvs"
proof (induction t h and ts h and kvs h arbitrary: v h' and vs h' and ps h'
        rule: load_loadList_loadProps.induct)
  case (6 xs h)
  obtain ws h1 where l: "loadList xs h = (ws, h1)" by (cases "loadList xs h")
  with "6.prems" have v: "v = VRef (length h1)" "h' = h1 @ [Arr ws]" by (auto simp: alloc_def)
  from load_length(2)[of h xs] l have le: "length h \<le> length h1" by simp
  from "6.IH"[OF l] have "those (map (snapshot (Suc (length h1 - length h)) h1) ws) = Some xs" .
  then have "those (map (snapshot (Suc (length h1 - length h)) (h1 @ [Arr ws])) ws) = Some xs"
    by (rule those_map_cong_Some) (rule snapshot_heap_mono)
  then show ?case using v le by (simp add: cellAt_def Suc_diff_le)
next
  case (7 kvs h)
  obtain qs h1 where l: "loadProps kvs h = (qs, h1)" by (cases "loadProps kvs h")
  with "7.prems" have v: "v = VRef (length h1)" "h' = h1 @ [Obj qs]" by (auto simp: alloc_def)
  from load_length(3)[of h kvs] l have le: "length h \<le> length h1" by simp
  from "7.IH"[OF l] have
    "those (map (\<lambda>kv. map_option (Pair (fst kv)) (snapshot (Suc (length h1 - length h)) h1 (snd kv))) qs)
       = Some kvs" .
  then have
    "those (map (\<lambda>kv. map_option (Pair (fst kv))
        (snapshot (Suc (length h1 - length h)) (h1 @ [Obj qs]) (snd kv))) qs) = Some kvs"
    by (rule those_map_cong_Some) (auto dest: snapshot_heap_mono)
  then show ?case using v le by (simp add: cellAt_def Suc_diff_le)
next
  case (9 x xs h)
  obtain w h1 where l: "load x h = (w, h1)" by (cases "load x h")
  obtain ws h2 where ll: "loadList xs h1 = (ws, h2)" by (cases "loadList xs h1")
  from "9.prems" l ll have r: "vs = w # ws" "h' = h2" by auto
  from load_length(1)[of h x] l have le1: "length h \<le> length h1" by simp
  from load_length(2)[of h1 xs] ll have le2: "length h1 \<le> length h2" by simp
  from load_extends(2)[of xs h1] ll obtain ext where ext: "h2 = h1 @ ext" by auto
  from "9.IH"(1)[OF l] have "snapshot (Suc (length h1 - length h)) h1 w = Some x" .
  then have "snapshot (Suc (length h1 - length h)) h2 w = Some x"
    unfolding ext by (rule snapshot_heap_mono)
  then have a: "snapshot (Suc (length h2 - length h)) h2 w = Some x"
    by (rule snapshot_fuel_mono) (use le2 in simp)
  from "9.IH"(2)[OF l[symmetric] ll]
  have "those (map (snapshot (Suc (length h2 - length h1)) h2) ws) = Some xs" .
  then have b: "those (map (snapshot (Suc (length h2 - length h)) h2) ws) = Some xs"
    by (rule those_map_cong_Some) (rule snapshot_fuel_mono, assumption, use le1 in simp)
  show ?case using a b r by simp
next
  case (11 k x kvs h)
  obtain w h1 where l: "load x h = (w, h1)" by (cases "load x h")
  obtain qs h2 where ll: "loadProps kvs h1 = (qs, h2)" by (cases "loadProps kvs h1")
  from "11.prems" l ll have r: "ps = (k, w) # qs" "h' = h2" by auto
  from load_length(1)[of h x] l have le1: "length h \<le> length h1" by simp
  from load_length(3)[of h1 kvs] ll have le2: "length h1 \<le> length h2" by simp
  from load_extends(3)[of kvs h1] ll obtain ext where ext: "h2 = h1 @ ext" by auto
  from "11.IH"(1)[OF l] have "snapshot (Suc (length h1 - length h)) h1 w = Some x" .
  then have "snapshot (Suc (length h1 - length h)) h2 w = Some x"
    unfolding ext by (rule snapshot_heap_mono)
  then have a: "snapshot (Suc (length h2 - length h)) h2 w = Some x"
    by (rule snapshot_fuel_mono) (use le2 in simp)
  from "11.IH"(2)[OF l[symmetric] ll]
  have "those (map (\<lambda>kv. map_option (Pair (fst kv)) (snapshot (Suc (length h2 - length h1)) h2 (snd kv))) qs)
          = Some kvs" .
  then have b: "those (map (\<lambda>kv. map_option (Pair (fst kv))
                  (snapshot (Suc (length h2 - length h)) h2 (snd kv))) qs) = Some kvs"
  proof (rule those_map_cong_Some)
    fix kv y assume "kv \<in> set qs"
      and "map_option (Pair (fst kv)) (snapshot (Suc (length h2 - length h1)) h2 (snd kv)) = Some y"
    then obtain z where z: "snapshot (Suc (length h2 - length h1)) h2 (snd kv) = Some z" "y = (fst kv, z)"
      by auto
    from z(1) have "snapshot (Suc (length h2 - length h)) h2 (snd kv) = Some z"
      by (rule snapshot_fuel_mono) (use le1 in simp)
    with z(2) show "map_option (Pair (fst kv)) (snapshot (Suc (length h2 - length h)) h2 (snd kv)) = Some y"
      by simp
  qed
  show ?case using a b r by simp
qed auto

lemma load_readBack: "load t h = (v, h') \<Longrightarrow> readBack h' v = Inr t"
proof -
  assume l: "load t h = (v, h')"
  from load_snapshot(1)[OF l] have "snapshot (Suc (length h' - length h)) h' v = Some t" .
  then have "snapshot (Suc (length h')) h' v = Some t"
    by (rule snapshot_fuel_mono) simp
  then show ?thesis by (simp add: readBack_def)
qed

section \<open>Properties of the transaction wrapper\<close>

lemmas call_defs = callTableExists_def callQuery_def callStartSession_def callWork_def callCommit_def
  callRollback_def callRelease_def

text \<open>
  C3, amended. Once the session \<open>s\<close> is started, the calls of the wrapper are: the work,
  then the commit, or the commit and the rollback, or the rollback, and last the release,
  which is called exactly once on every path. If the work raises, the calls are the work,
  the rollback, the release; and if moreover the rollback and the release return, the
  wrapper raises the failure of the work, unchanged.
\<close>

theorem withTransaction_cleanup:
  assumes start: "startSession drv (fst w) = (Inr s, db1)"
  shows "(\<exists>mid. snd (snd (withTransaction drv fn w)) = snd w @ [StartSession, Work s] @ mid @ [Release s]
            \<and> mid \<in> {[Commit s], [Commit s, Rollback s], [Rollback s]}) \<and>
         (fst (fn s db1) = Inl err \<longrightarrow>
            snd (snd (withTransaction drv fn w)) = snd w @ [StartSession, Work s, Rollback s, Release s]) \<and>
         (fn s db1 = (Inl err, db2) \<and> rollback drv s db2 = (Inr (), db3) \<and> release drv s db3 = (Inr (), db4) \<longrightarrow>
            withTransaction drv fn w = (Inl err, (db4, snd w @ [StartSession, Work s, Rollback s, Release s])))"
proof (intro conjI impI)
  obtain r db2 where f: "fn s db1 = (r, db2)" by (cases "fn s db1")
  show "\<exists>mid. snd (snd (withTransaction drv fn w)) = snd w @ [StartSession, Work s] @ mid @ [Release s]
            \<and> mid \<in> {[Commit s], [Commit s, Rollback s], [Rollback s]}"
  proof (cases r)
    case (Inl err)
    obtain r2 db3 where rb: "rollback drv s db2 = (r2, db3)" by (cases "rollback drv s db2")
    obtain r3 db4 where rl: "release drv s db3 = (r3, db4)" by (cases "release drv s db3")
    show ?thesis using start f Inl rb rl
      by (simp add: withTransaction_def tryBlock_def catchBlock_def finallyBlock_def call_defs
            split: sum.splits)
  next
    case (Inr result)
    obtain r1 db3 where c: "commit drv s db2 = (r1, db3)" by (cases "commit drv s db2")
    show ?thesis
    proof (cases r1)
      case (Inl err)
      obtain r2 db4 where rb: "rollback drv s db3 = (r2, db4)" by (cases "rollback drv s db3")
      obtain r3 db5 where rl: "release drv s db4 = (r3, db5)" by (cases "release drv s db4")
      show ?thesis using start f \<open>r = Inr result\<close> c Inl rb rl
        by (simp add: withTransaction_def tryBlock_def catchBlock_def finallyBlock_def call_defs
              split: sum.splits)
    next
      case (Inr u)
      obtain r3 db4 where rl: "release drv s db3 = (r3, db4)" by (cases "release drv s db3")
      show ?thesis using start f \<open>r = Inr result\<close> c Inr rl
        by (simp add: withTransaction_def tryBlock_def catchBlock_def finallyBlock_def call_defs
              split: sum.splits)
    qed
  qed
next
  assume e: "fst (fn s db1) = Inl err"
  obtain db2 where f: "fn s db1 = (Inl err, db2)" using e by (cases "fn s db1") simp
  obtain r2 db3 where rb: "rollback drv s db2 = (r2, db3)" by (cases "rollback drv s db2")
  obtain r3 db4 where rl: "release drv s db3 = (r3, db4)" by (cases "release drv s db3")
  show "snd (snd (withTransaction drv fn w)) = snd w @ [StartSession, Work s, Rollback s, Release s]"
    using start f rb rl
    by (simp add: withTransaction_def tryBlock_def catchBlock_def finallyBlock_def call_defs
          split: sum.splits)
next
  assume "fn s db1 = (Inl err, db2) \<and> rollback drv s db2 = (Inr (), db3) \<and> release drv s db3 = (Inr (), db4)"
  then show "withTransaction drv fn w = (Inl err, (db4, snd w @ [StartSession, Work s, Rollback s, Release s]))"
    using start
    by (simp add: withTransaction_def tryBlock_def catchBlock_def finallyBlock_def call_defs)
qed

text \<open>An instance of C3: the work writes once and raises; the rollback resets the
  database state and the failure of the work is raised again.\<close>

theorem withTransaction_cleanup_witness:
  "startSession (exampleDriver True []) (fst (0, [])) = (Inr 7, 0) \<and>
   failingWork 7 0 = (Inl (Failure ''work failed''), 1) \<and>
   rollback (exampleDriver True []) 7 1 = (Inr (), 0) \<and>
   release (exampleDriver True []) 7 0 = (Inr (), 0) \<and>
   withTransaction (exampleDriver True []) failingWork (0, []) =
     (Inl (Failure ''work failed''), (0, [StartSession, Work 7, Rollback 7, Release 7]))"
  using withTransaction_cleanup
    [of "exampleDriver True []" "(0, [])" 7 0 failingWork "Failure ''work failed''" 1 0 0]
  by (simp add: exampleDriver_def failingWork_def)

text \<open>
  C3 as stated, for every work function that raises: when the rollback fails as well, the
  wrapper raises the failure of the rollback, not the original failure of the work.
\<close>

theorem withTransaction_rollback_fails:
  "withTransaction (exampleDriver True [] \<lparr>rollback := failingRollback\<rparr>) failingWork (0, []) =
     (Inl (Failure ''rollback failed''), (1, [StartSession, Work 7, Rollback 7, Release 7]))"
  by (simp add: withTransaction_def tryBlock_def catchBlock_def finallyBlock_def call_defs
        exampleDriver_def failingWork_def failingRollback_def)

section \<open>Properties of find, countDocuments, updateMany, deleteMany and findWithCursor\<close>

lemmas find_defs = findWithCursor_def find_crud_def call_defs cursorFilter_def defaultFilter_def
  ownEntries_def finish_def getField_def propertyOf_def lookupProp_def nextCursorOf_def
  lastOrUndefined_def optField_def limitOf_def cursorFieldOf_def countOf_def sortOf_def reverseOf_def

text \<open>
  C4. For every page \<^verbatim>\<open>findWithCursor\<close> returns, \<^verbatim>\<open>nextCursor\<close> is the cursor-field value
  of the last returned document when the number of returned documents equals the limit
  (10 when none is given), and \<^verbatim>\<open>undefined\<close> when the page is partial or empty. When the
  last document has a value in the cursor field, \<^verbatim>\<open>nextCursor\<close> equals it exactly when the
  page is full.
\<close>

theorem findWithCursor_nextCursor:
  assumes "findWithCursor drv rt collection flt options w = (Inr page, w')"
  shows "nextCursor page =
           (if int (length (page_data page)) = limitOf options \<and> page_data page \<noteq> []
            then optField (last (page_data page)) (cursorFieldOf options)
            else JUndefined) \<and>
         (page_data page \<noteq> [] \<and> optField (last (page_data page)) (cursorFieldOf options) \<noteq> JUndefined \<longrightarrow>
            (nextCursor page = optField (last (page_data page)) (cursorFieldOf options)
               \<longleftrightarrow> int (length (page_data page)) = limitOf options))"
proof -
  have nc: "nextCursor page = nextCursorOf (page_data page) (limitOf options) (cursorFieldOf options)"
    using assms
    by (auto simp: findWithCursor_def split: prod.splits sum.splits if_splits)
  show ?thesis unfolding nc
    by (auto simp: nextCursorOf_def lastOrUndefined_def optField_def)
qed

text \<open>An instance of C4: two rows, with page size 2 and with page size 3.\<close>

theorem findWithCursor_nextCursor_witness:
  "findWithCursor (exampleDriver True twoRows) exampleRuntime ''users'' (JObj []) (pageOptions 2) (0, []) =
     (Inr \<lparr>page_data = [JObj [(''id'', JNum 1)], JObj [(''id'', JNum 2)]], nextCursor = JNum 2,
           totalCount = None\<rparr>,
      (1, [TableExists ''users'',
           Query (selectSql ''users'' [] \<lparr>opt_limit = Some 2, opt_skip = None, opt_sort = Some [(''id'', 1)]\<rparr>) []])) \<and>
   findWithCursor (exampleDriver True twoRows) exampleRuntime ''users'' (JObj []) (pageOptions 3) (0, []) =
     (Inr \<lparr>page_data = [JObj [(''id'', JNum 1)], JObj [(''id'', JNum 2)]], nextCursor = JUndefined,
           totalCount = None\<rparr>,
      (1, [TableExists ''users'',
           Query (selectSql ''users'' [] \<lparr>opt_limit = Some 3, opt_skip = None, opt_sort = Some [(''id'', 1)]\<rparr>) []]))"
  using findWithCursor_nextCursor
    [of "exampleDriver True twoRows" exampleRuntime "''users''" "JObj []" "pageOptions 2" "(0, [])"
        "\<lparr>page_data = [JObj [(''id'', JNum 1)], JObj [(''id'', JNum 2)]], nextCursor = JNum 2,
           totalCount = None\<rparr>"]
  by (simp add: find_defs exampleDriver_def exampleRuntime_def twoRows_def pageOptions_def)

lemma buildWhereClause_no_entries:
  "ownEntries flt = [] \<Longrightarrow> buildWhereClause d flt = Inr ([], [])"
  by (cases flt) (simp_all add: ownEntries_def finish_def)

text \<open>
  C9. A filter with no entries compiles to the empty clause and the empty parameter list.
  With an empty clause the statement of \<^verbatim>\<open>find\<close> is \<^verbatim>\<open>SELECT data FROM `collection`\<close>
  followed by the ORDER BY, LIMIT and OFFSET of the options only, so without options it
  selects every row; and when the table exists, \<^verbatim>\<open>find\<close> with such a filter runs exactly
  this statement, with no parameters, and decodes its rows.
\<close>

theorem find_empty_filter:
  "(ownEntries flt = [] \<longrightarrow> buildWhereClause d flt = Inr ([], [])) \<and>
   selectSql collection [] options =
     ''SELECT data FROM `'' @ collection @ ''`'' @ orderText options @ limitText options
       @ offsetText options \<and>
   selectSql collection [] noOptions = ''SELECT data FROM `'' @ collection @ ''`'' \<and>
   (ownEntries (defaultFilter flt) = [] \<and> tableExists drv collection (fst w) = (Inr True, db1) \<and>
    query drv (selectSql collection [] options) [] db1 = (r, db2) \<longrightarrow>
      find_crud drv rt collection flt options w =
        ((case r of Inl e \<Rightarrow> Inl e | Inr rows \<Rightarrow> decodeRows rt rows),
         (db2, snd w @ [TableExists collection, Query (selectSql collection [] options) []])))"
proof (intro conjI impI)
  assume "ownEntries flt = []"
  then show "buildWhereClause d flt = Inr ([], [])" by (rule buildWhereClause_no_entries)
next
  show "selectSql collection [] options =
     ''SELECT data FROM `'' @ collection @ ''`'' @ orderText options @ limitText options
       @ offsetText options"
    by (simp add: selectSql_def whereText_def)
next
  show "selectSql collection [] noOptions = ''SELECT data FROM `'' @ collection @ ''`''"
    by (simp add: selectSql_def whereText_def orderText_def limitText_def offsetText_def noOptions_def)
next
  assume a: "ownEntries (defaultFilter flt) = [] \<and> tableExists drv collection (fst w) = (Inr True, db1) \<and>
    query drv (selectSql collection [] options) [] db1 = (r, db2)"
  then have "buildWhereClause (getDialect drv) (defaultFilter flt) = Inr ([], [])"
    by (simp add: buildWhereClause_no_entries)
  with a show "find_crud drv rt collection flt options w =
        ((case r of Inl e \<Rightarrow> Inl e | Inr rows \<Rightarrow> decodeRows rt rows),
         (db2, snd w @ [TableExists collection, Query (selectSql collection [] options) []]))"
    by (cases r) (simp_all add: find_crud_def call_defs)
qed

text \<open>An instance of C9: \<^verbatim>\<open>find("users")\<close>, the filter left to its default.\<close>

theorem find_empty_filter_witness:
  "ownEntries (JObj []) = [] \<and>
   buildWhereClause ''mysql'' (JObj []) = Inr ([], []) \<and>
   ownEntries (defaultFilter JUndefined) = [] \<and>
   tableExists (exampleDriver True twoRows) ''users'' (fst (0, [])) = (Inr True, 0) \<and>
   query (exampleDriver True twoRows) (selectSql ''users'' [] noOptions) [] 0 = (Inr twoRows, 1) \<and>
   find_crud (exampleDriver True twoRows) exampleRuntime ''users'' JUndefined noOptions (0, []) =
     (Inr [JObj [(''id'', JNum 1)], JObj [(''id'', JNum 2)]],
      (1, [TableExists ''users'', Query (''SELECT data FROM `users`'') []]))"
  using find_empty_filter
    [of "JObj []" "''mysql''" "''users''" noOptions "exampleDriver True twoRows" "(0, [])" 0
        "Inr twoRows" 1]
    find_empty_filter
    [of JUndefined "''mysql''" "''users''" noOptions "exampleDriver True twoRows" "(0, [])" 0
        "Inr twoRows" 1 exampleRuntime]
  by (simp add: ownEntries_def defaultFilter_def exampleDriver_def exampleRuntime_def twoRows_def
        getField_def propertyOf_def lookupProp_def)

text \<open>
  C10. When the driver reports that the table of the collection does not exist, \<^verbatim>\<open>find\<close>
  returns the empty list, \<^verbatim>\<open>countDocuments\<close> returns 0, \<^verbatim>\<open>updateMany\<close> returns matched and
  modified counts 0 and \<^verbatim>\<open>deleteMany\<close> returns deleted count 0, for every filter; the only
  call made to the driver is the table-existence check.
\<close>

theorem missing_table_short_circuit:
  assumes "tableExists drv collection (fst w) = (Inr False, db1)"
  shows "find_crud drv rt collection flt options w = (Inr [], (db1, snd w @ [TableExists collection])) \<and>
         countDocuments drv collection flt w = (Inr (JNum 0), (db1, snd w @ [TableExists collection])) \<and>
         updateMany drv rt collection flt update limit (w, h) =
           (Inr (UpdateResult True 0 0), ((db1, snd w @ [TableExists collection]), h)) \<and>
         deleteMany drv rt collection flt limit w =
           (Inr (DeleteResult True 0), (db1, snd w @ [TableExists collection]))"
  using assms
  by (simp add: find_crud_def countDocuments_def updateMany_def deleteMany_def callTableExists_def)

text \<open>An instance of C10; the filter of \<^verbatim>\<open>find\<close> is one the Predicate Compiler would
  reject, and it is never compiled.\<close>

theorem missing_table_short_circuit_witness:
  "tableExists (exampleDriver False twoRows) ''users'' (fst (0, [])) = (Inr False, 0) \<and>
   find_crud (exampleDriver False twoRows) exampleRuntime ''users'' (JObj [(''a'', JObj [(''$in'', JNum 1)])])
       noOptions (0, []) = (Inr [], (0, [TableExists ''users''])) \<and>
   countDocuments (exampleDriver False twoRows) ''users'' (JObj []) (0, []) =
       (Inr (JNum 0), (0, [TableExists ''users''])) \<and>
   updateMany (exampleDriver False twoRows) exampleRuntime ''users'' (JObj []) [IncOp [(''age'', 1)]] None
       ((0, []), []) = (Inr (UpdateResult True 0 0), ((0, [TableExists ''users'']), [])) \<and>
   deleteMany (exampleDriver False twoRows) exampleRuntime ''users'' (JObj []) None (0, []) =
       (Inr (DeleteResult True 0), (0, [TableExists ''users'']))"
  using missing_table_short_circuit
    [of "exampleDriver False twoRows" "''users''" "(0, [])" 0 exampleRuntime
        "JObj [(''a'', JObj [(''$in'', JNum 1)])]" noOptions]
    missing_table_short_circuit
    [of "exampleDriver False twoRows" "''users''" "(0, [])" 0 exampleRuntime
        "JObj []" noOptions "[IncOp [(''age'', 1)]]" None "[]"]
  by (simp add: exampleDriver_def)

end
